theory Spec2Isabelle
  imports Main "HOL-Library.Stream"
begin

section \<open>Errors and text helpers\<close>

text \<open>
  Go compares error values by identity. The two package-level error values the handler
  compares against (\<open>io.EOF\<close> and \<open>ErrNotFound\<close>) are constructors of their own, so
  an error made elsewhere with the same text is a different value, as in Go.
\<close>

datatype error = io_EOF | ErrNotFound | errors_New string

fun Error :: "error \<Rightarrow> string" where
  "Error io_EOF = ''EOF''"
| "Error ErrNotFound = ''404 page not found''"
| "Error (errors_New s) = s"

definition CR :: char where
  "CR = CHR 0x0D"

definition LF :: char where
  "LF = CHR 0x0A"

definition CRLF :: string where
  "CRLF = [CR, LF]"

definition StreamErrHeader :: string where
  "StreamErrHeader = ''X-Stream-Error''"

definition streamHeader :: string where
  "streamHeader = ''X-Stream-Output''"

definition channelHeader :: string where
  "channelHeader = ''X-Chunked-Output''"

definition contentTypeHeader :: string where
  "contentTypeHeader = ''Content-Type''"

definition contentLengthHeader :: string where
  "contentLengthHeader = ''Content-Length''"

definition transferEncodingHeader :: string where
  "transferEncodingHeader = ''Transfer-Encoding''"

definition applicationJson :: string where
  "applicationJson = ''application/json''"

text \<open>
  \<open>strings.Split(s, sep)\<close> for a separator of one byte, the only way the handler calls
  it: the pieces of \<open>s\<close> between the occurrences of \<open>sep\<close>. The result is never empty.
\<close>

fun strings_Split :: "string \<Rightarrow> char \<Rightarrow> string list" where
  "strings_Split [] sep = [[]]"
| "strings_Split (c # cs) sep =
     (if c = sep then [] # strings_Split cs sep
      else (case strings_Split cs sep of
              [] \<Rightarrow> [[c]]
            | x # xs \<Rightarrow> (c # x) # xs))"

text \<open>
  \<open>sanitizedErrStr\<close> (handler.go, lines 305-310). The index \<open>[0]\<close> is \<open>hd\<close>; it is
  applied to a list that \<open>strings_Split_not_Nil\<close> below shows to be non-empty.
\<close>

definition sanitizedErrStr :: "error \<Rightarrow> string" where
  "sanitizedErrStr err =
     (let s = Error err;
          s = hd (strings_Split s LF);
          s = hd (strings_Split s CR)
      in s)"

text \<open>\<open>fmt.Sprintf\<close> with the verbs \<open>%x\<close> and \<open>%d\<close> on a non-negative integer.\<close>

definition digit_char :: "nat \<Rightarrow> char" where
  "digit_char d = ''0123456789abcdef'' ! d"

fun fmt_x :: "nat \<Rightarrow> string" where
  "fmt_x n = (if n < 16 then [digit_char n] else fmt_x (n div 16) @ [digit_char (n mod 16)])"

fun fmt_d :: "nat \<Rightarrow> string" where
  "fmt_d n = (if n < 10 then [digit_char n] else fmt_d (n div 10) @ [digit_char (n mod 10)])"

declare fmt_x.simps [simp del]

declare fmt_d.simps [simp del]

section \<open>The hijacked connection\<close>

text \<open>
  The \<open>bufio\<close> writer of the hijacked connection. \<open>written\<close> collects the bytes of the
  operations the writer accepted. As \<open>bufio.Writer\<close> documents, an error is sticky: after
  a failed operation no more data is accepted and every later operation returns the same
  error. When the connection fails is not in the handler's hands, so the state carries
  the outcomes of the coming operations in \<open>faults\<close> (\<open>None\<close>: the operation succeeds;
  an empty list: everything succeeds from here on).
\<close>

record bufio_Writer =
  written :: string
  werr :: "error option"
  faults :: "error option list"

definition bw_op :: "string \<Rightarrow> bufio_Writer \<Rightarrow> error option \<times> bufio_Writer" where
  "bw_op s b =
     (case werr b of
        Some e \<Rightarrow> (Some e, b)
      | None \<Rightarrow>
          (case faults b of
             [] \<Rightarrow> (None, b\<lparr>written := written b @ s\<rparr>)
           | None # fs \<Rightarrow> (None, b\<lparr>written := written b @ s, faults := fs\<rparr>)
           | Some e # fs \<Rightarrow> (Some e, b\<lparr>werr := Some e, faults := fs\<rparr>)))"

definition WriteString :: "bufio_Writer \<Rightarrow> string \<Rightarrow> error option \<times> bufio_Writer" where
  "WriteString b s = bw_op s b"

definition Write :: "bufio_Writer \<Rightarrow> string \<Rightarrow> error option \<times> bufio_Writer" where
  "Write b p = bw_op p b"

definition Flush :: "bufio_Writer \<Rightarrow> error option \<times> bufio_Writer" where
  "Flush b = bw_op [] b"

section \<open>The body source and the chunk loop\<close>

text \<open>
  An \<open>io.Reader\<close> is the stream of the results of its successive \<open>Read(buf)\<close> calls: the
  bytes placed in \<open>buf[0:n]\<close> and the error returned with them. (The buffer has
  32 KiB, so \<open>n\<close> is at most 32768 by the contract of \<open>io.Reader\<close>; nothing below
  depends on the bound.)
\<close>

type_synonym Reader = "(string \<times> error option) stream"

definition Read :: "Reader \<Rightarrow> (string \<times> error option) \<times> Reader" where
  "Read r = (shd r, stl r)"

text \<open>
  \<open>writeChunks\<close> (handler.go, lines 277-303). The loop has no bound of its own: on a
  source that never reports an error or \<open>io.EOF\<close> it does not return, which is the value
  \<open>None\<close> here. The error of the inner \<open>w.Write\<close> shadows the read error only inside the
  \<open>if n > 0\<close> block.
\<close>

partial_function (option) writeChunks :: "Reader \<Rightarrow> bufio_Writer \<Rightarrow> (error option \<times> bufio_Writer) option" where
  "writeChunks r w =
     (case Read r of ((buf, err), r') \<Rightarrow>
        (if length buf > 0 then
           (case WriteString w (fmt_x (length buf) @ CRLF) of (_, w1) \<Rightarrow>
            (case Write w1 buf of
               (Some werror, w2) \<Rightarrow> Some (Some werror, w2)
             | (None, w2) \<Rightarrow>
                 (case WriteString w2 CRLF of (_, w3) \<Rightarrow>
                  (case Flush w3 of (_, w4) \<Rightarrow>
                     (if err \<noteq> None \<and> err \<noteq> Some io_EOF then Some (err, w4)
                      else if err = Some io_EOF then Some (None, w4)
                      else writeChunks r' w4)))))
         else
           (if err \<noteq> None \<and> err \<noteq> Some io_EOF then Some (err, w)
            else if err = Some io_EOF then Some (None, w)
            else writeChunks r' w)))"

section \<open>The response writer\<close>

type_synonym Header = "string \<rightharpoonup> string list"

text \<open>
  \<open>Header.Set\<close> replaces the values of a key. It canonicalises the key first; every key
  the handler passes is one of its constants, which are canonical already.
\<close>

definition Header_Set :: "Header \<Rightarrow> string \<Rightarrow> string \<Rightarrow> Header" where
  "Header_Set h k v = h(k \<mapsto> [v])"

text \<open>
  What \<open>net/http\<close> contributes to the bytes on the wire is a parameter: the reason
  phrase of a status code and the wire format of a header collection.
\<close>

record net_http =
  StatusText :: "nat \<Rightarrow> string"
  Header_Write :: "Header \<Rightarrow> string"

text \<open>Calls made on the response writer through the normal, not hijacked, path.\<close>

datatype rw_call = WriteHeader nat | Write_body string | http_Error string nat

record Conn =
  bufrw :: bufio_Writer
  closed :: bool

text \<open>
  \<open>Hijacker\<close> is \<open>None\<close> when the writer does not implement \<open>http.Hijacker\<close>, and
  otherwise what \<open>Hijack()\<close> returns: an error or the connection's buffered writer.
  \<open>conn\<close> is the connection once the handler has taken it over.
\<close>

record ResponseWriter =
  Header :: Header
  Hijacker :: "(error + bufio_Writer) option"
  calls :: "rw_call list"
  conn :: "Conn option"

definition status_line :: "net_http \<Rightarrow> nat \<Rightarrow> string" where
  "status_line L status = ''HTTP/1.1 '' @ fmt_d status @ '' '' @ StatusText L status @ CRLF"

definition trailer_line :: "error \<Rightarrow> string" where
  "trailer_line e = StreamErrHeader @ '': '' @ sanitizedErrStr e @ CRLF"

text \<open>
  \<open>writeResponse\<close> (handler.go, lines 239-275). The results of the \<open>WriteString\<close>,
  \<open>Header.Write\<close> and \<open>Flush\<close> calls are dropped, as in the source; only the error of
  \<open>writeChunks\<close> is returned. \<open>conn.Close()\<close> is deferred, so it runs on every return
  after a successful hijack.
\<close>

definition writeResponse :: "net_http \<Rightarrow> nat \<Rightarrow> ResponseWriter \<Rightarrow> Reader \<Rightarrow> (error option \<times> ResponseWriter) option" where
  "writeResponse L status w out =
     (case Hijacker w of
        None \<Rightarrow> Some (Some (errors_New ''Could not create hijacker''), w)
      | Some (Inl err) \<Rightarrow> Some (Some err, w)
      | Some (Inr writer) \<Rightarrow>
          (let b1 = snd (WriteString writer (status_line L status));
               b2 = snd (bw_op (Header_Write L (Header w)) b1);
               b3 = snd (WriteString b2 CRLF)
           in (case writeChunks out b3 of
                 None \<Rightarrow> None
               | Some (streamErr, b4) \<Rightarrow>
                   (let b5 = snd (WriteString b4 (''0'' @ CRLF));
                        b6 = (case streamErr of
                                None \<Rightarrow> b5
                              | Some e \<Rightarrow> snd (WriteString b5 (trailer_line e)));
                        b7 = snd (WriteString b6 CRLF);
                        b8 = snd (Flush b7)
                    in Some (streamErr, w\<lparr>conn := Some \<lparr>bufrw = b8, closed = True\<rparr>\<rparr>)))))"

section \<open>Commands, requests and results\<close>

text \<open>
  \<open>cmds.Request\<close> and \<open>cmds.Response\<close> are interfaces of the commands package. A value
  of either is the record of what its methods return to the handler:
  \<open>Option_String req name\<close> is \<open>req.Option(name).String()\<close> (value, found, error) and
  \<open>Option_Bool req name\<close> is \<open>req.Option(name).Bool()\<close>.
\<close>

record Request =
  Option_String :: "string \<Rightarrow> string \<times> bool \<times> error option"
  Option_Bool :: "string \<Rightarrow> bool \<times> bool \<times> error option"
  SetRootContext :: "error option"

text \<open>
  \<open>cmds.Error\<close>: a message and a code of the unsigned type \<open>cmds.ErrorType\<close>.
\<close>

record cmds_Error =
  Message :: string
  Code :: nat

text \<open>
  Modelled from the spec: the constants of the commands package are not part of the
  sources at hand. The spec names the error classes (client-caused against the rest), the
  encoding option and the encodings \<open>json\<close>, \<open>xml\<close> and \<open>text\<close>. No result below depends
  on the number chosen for \<open>ErrClient\<close> or on the spelling of \<open>EncShort\<close>.
\<close>

definition ErrClient :: nat where
  "ErrClient = 1"

definition EncShort :: string where
  "EncShort = ''enc''"

definition cmds_JSON :: string where
  "cmds_JSON = ''json''"

definition cmds_XML :: string where
  "cmds_XML = ''xml''"

definition cmds_Text :: string where
  "cmds_Text = ''text''"

text \<open>
  The dynamic type of \<open>res.Output()\<close>, as far as the handler asks for it: an
  \<open>io.Reader\<close>, a \<open>chan interface{}\<close>, a \<open>\<open><-chan interface{}\<close>\<close>, or anything else. The
  bytes of the body come from \<open>res.Reader()\<close> in every case.
\<close>

datatype Output = Out_Reader | Out_Chan | Out_RecvChan | Out_Value

record Response =
  res_Request :: Request
  res_Error :: "cmds_Error option"
  res_Reader :: "error + Reader"
  res_Length :: nat
  res_Output :: Output

record http_Request =
  Method :: string

text \<open>\<open>mimeTypes\<close> (handler.go, lines 57-61); a Go map yields \<open>""\<close> for a missing key.\<close>

definition mimeTypes :: "string \<rightharpoonup> string" where
  "mimeTypes = [cmds_JSON \<mapsto> ''application/json'',
                cmds_XML \<mapsto> ''application/xml'',
                cmds_Text \<mapsto> ''text/plain'']"

definition mimeTypes_index :: "string \<Rightarrow> string" where
  "mimeTypes_index enc = (case mimeTypes enc of None \<Rightarrow> [] | Some m \<Rightarrow> m)"

text \<open>\<open>guessMimeType\<close> (handler.go, lines 157-168).\<close>

definition guessMimeType :: "Response \<Rightarrow> error + string" where
  "guessMimeType res =
     (case Option_String (res_Request res) EncShort of (enc, found, err) \<Rightarrow>
        (case err of
           Some e \<Rightarrow> Inl e
         | None \<Rightarrow>
             (if \<not> found then Inl (errors_New ''no encoding option set'')
              else Inr (mimeTypes_index enc))))"

text \<open>
  \<open>http.Error\<close> belongs to \<open>net/http\<close>; the call is recorded with its arguments.
\<close>

definition call_http_Error :: "ResponseWriter \<Rightarrow> string \<Rightarrow> nat \<Rightarrow> ResponseWriter" where
  "call_http_Error w msg code = w\<lparr>calls := calls w @ [http_Error msg code]\<rparr>"

text \<open>
  \<open>sendResponse\<close> (handler.go, lines 170-235). The result is the response writer after
  the call, \<open>None\<close> when the body loop does not return. The error \<open>writeResponse\<close> returns
  is only logged, which leaves no trace in the response writer.
\<close>

definition sendResponse :: "net_http \<Rightarrow> ResponseWriter \<Rightarrow> http_Request \<Rightarrow> Request \<Rightarrow> Response \<Rightarrow> ResponseWriter option" where
  "sendResponse L w r req res =
     (case guessMimeType res of
        Inl err \<Rightarrow> Some (call_http_Error w (Error err) 500)
      | Inr mime0 \<Rightarrow>
          (let status = (case res_Error res of
                           Some e \<Rightarrow> (if Code e = ErrClient then 400 else 500)
                         | None \<Rightarrow> 200)
           in (case res_Reader res of
                 Inl err \<Rightarrow> Some (call_http_Error w (Error err) 500)
               | Inr out \<Rightarrow>
                   (let h0 = Header w;
                        h1 = (if res_Length res > 0
                              then Header_Set h0 contentLengthHeader (fmt_d (res_Length res))
                              else h0);
                        mime1 = (if res_Output res = Out_Reader then [] else mime0);
                        h2 = (if res_Output res = Out_Reader then Header_Set h1 streamHeader ''1'' else h1);
                        isChan = (res_Output res = Out_Chan \<or> res_Output res = Out_RecvChan);
                        streamChans = fst (Option_Bool req ''stream-channels'');
                        h3 = (if isChan then Header_Set h2 channelHeader ''1'' else h2);
                        mime2 = (if isChan \<and> streamChans then applicationJson else mime1);
                        h4 = (if mime2 \<noteq> [] then Header_Set h3 contentTypeHeader mime2 else h3);
                        h5 = Header_Set h4 transferEncodingHeader ''chunked'';
                        w' = w\<lparr>Header := h5\<rparr>
                    in (if Method r = ''HEAD'' then Some w'
                        else (case writeResponse L status w' out of
                                None \<Rightarrow> None
                              | Some (err, w'') \<Rightarrow> Some w''))))))"

section \<open>The handler\<close>

record cors_Options =
  AllowedOrigins :: "string list option"
  AllowedMethods :: "string list option"

text \<open>
  \<open>ServerConfig\<close> (handler.go, lines 63-69). \<open>Headers\<close> is a Go map: the list holds its
  entries in the order in which \<open>range\<close> happens to visit them, each key once. A nil
  slice and a nil pointer are \<open>None\<close>. Of \<open>cors.Options\<close> only the two fields the handler
  touches are kept.
\<close>

record ServerConfig =
  Headers :: "(string \<times> string list) list"
  CORSOpts :: "cors_Options option"

definition localhostOrigins :: "string list" where
  "localhostOrigins = [''http://127.0.0.1'', ''https://127.0.0.1'', ''http://localhost'', ''https://localhost'']"

text \<open>\<open>skipAPIHeader\<close> (handler.go, lines 71-80): Go's \<open>switch\<close> does not fall through.\<close>

definition skipAPIHeader :: "string \<Rightarrow> bool" where
  "skipAPIHeader h =
     (if h = ''Access-Control-Allow-Origin'' then True
      else if h = ''Access-Control-Allow-Methods'' then True
      else if h = ''Access-Control-Allow-Credentials'' then True
      else False)"

text \<open>
  \<open>Call\<close> is \<open>root.Call(req)\<close>, \<open>GetNode\<close> the error of \<open>ctx.GetNode()\<close> (the node itself
  is only handed on to \<open>SetRootContext\<close>).
\<close>

record Command =
  Call :: "Request \<Rightarrow> Response"

record Context =
  GetNode :: "error option"

text \<open>
  \<open>internalHandler\<close> (handler.go, lines 21-25). Its only constructor is \<open>NewHandler\<close>,
  which never stores a nil \<open>cfg\<close>.
\<close>

record internalHandler =
  ctx :: Context
  root :: Command
  cfg :: ServerConfig

text \<open>
  The handler \<open>cors.New(opts).Handler(h)\<close> of the CORS package, known by the options it was
  made from and the handler it wraps.
\<close>

record cors_Handler =
  cors_options :: cors_Options
  wrapped :: internalHandler

record Handler =
  internal :: internalHandler
  corsHandler :: cors_Handler

text \<open>
  A nil pointer dereference is a panic. \<open>NewHandler\<close> reads through \<open>cfg\<close> and
  \<open>cfg.CORSOpts\<close> several times; each read is a \<open>deref\<close>.
\<close>

datatype panic = nil_dereference

definition deref :: "'a option \<Rightarrow> panic + 'a" where
  "deref p = (case p of None \<Rightarrow> Inl nil_dereference | Some x \<Rightarrow> Inr x)"

definition and_then :: "panic + 'a \<Rightarrow> ('a \<Rightarrow> panic + 'b) \<Rightarrow> panic + 'b" where
  "and_then m f = (case m of Inl e \<Rightarrow> Inl e | Inr x \<Rightarrow> f x)"

text \<open>\<open>NewHandler\<close> (handler.go, lines 82-106).\<close>

definition NewHandler :: "Context \<Rightarrow> Command \<Rightarrow> ServerConfig option \<Rightarrow> panic + Handler" where
  "NewHandler c rt cfg0 =
     (let cfg1 = (if cfg0 = None then Some \<lparr>Headers = [], CORSOpts = None\<rparr> else cfg0)
      in and_then (deref cfg1) (\<lambda>s1.
         let s2 = (if CORSOpts s1 = None
                   then s1\<lparr>CORSOpts := Some \<lparr>AllowedOrigins = None, AllowedMethods = None\<rparr>\<rparr>
                   else s1)
         in and_then (deref (CORSOpts s2)) (\<lambda>o2.
            let s3 = (if AllowedMethods o2 = None
                      then s2\<lparr>CORSOpts := Some (o2\<lparr>AllowedMethods := Some [''GET'', ''POST'', ''PUT'']\<rparr>)\<rparr>
                      else s2)
            in and_then (deref (CORSOpts s3)) (\<lambda>o3.
               let s4 = (if AllowedOrigins o3 = None
                         then s3\<lparr>CORSOpts := Some (o3\<lparr>AllowedOrigins := Some localhostOrigins\<rparr>)\<rparr>
                         else s3);
                   i = \<lparr>ctx = c, root = rt, cfg = s4\<rparr>
               in and_then (deref (CORSOpts s4)) (\<lambda>o4.
                  Inr \<lparr>internal = i, corsHandler = \<lparr>cors_options = o4, wrapped = i\<rparr>\<rparr>)))))"

text \<open>The loop over \<open>i.cfg.Headers\<close> in \<open>ServeHTTP\<close> (handler.go, lines 147-151).\<close>

fun set_user_headers :: "(string \<times> string list) list \<Rightarrow> Header \<Rightarrow> Header" where
  "set_user_headers [] h = h"
| "set_user_headers ((k, v) # kvs) h =
     set_user_headers kvs (if \<not> skipAPIHeader k then h(k \<mapsto> v) else h)"

text \<open>
  \<open>internalHandler.ServeHTTP\<close> (handler.go, lines 113-155). \<open>Parse\<close> is a function of this
  package that is not part of the sources at hand; it is a parameter.
\<close>

definition ServeHTTP :: "net_http \<Rightarrow> (http_Request \<Rightarrow> Command \<Rightarrow> error + Request) \<Rightarrow> internalHandler \<Rightarrow> ResponseWriter \<Rightarrow> http_Request \<Rightarrow> ResponseWriter option" where
  "ServeHTTP L Parse i w r =
     (case Parse r (root i) of
        Inl err \<Rightarrow>
          Some (w\<lparr>calls := calls w @ [WriteHeader (if err = ErrNotFound then 404 else 400),
                                      Write_body (Error err)]\<rparr>)
      | Inr req \<Rightarrow>
          (case GetNode (ctx i) of
             Some err \<Rightarrow>
               Some (call_http_Error w (''cmds/http: couldn't GetNode(): '' @ Error err) 500)
           | None \<Rightarrow>
               (case SetRootContext req of
                  Some err \<Rightarrow> Some (call_http_Error w (Error err) 500)
                | None \<Rightarrow>
                    (let res = Call (root i) req;
                         w' = w\<lparr>Header := set_user_headers (Headers (cfg i)) (Header w)\<rparr>
                     in sendResponse L w' r req res))))"

section \<open>Notions used to state the properties\<close>

text \<open>
  A connection is healthy when no operation on it has failed and none will.
\<close>

definition healthy :: "bufio_Writer \<Rightarrow> bool" where
  "healthy b = (werr b = None \<and> list_all (\<lambda>f. f = None) (faults b))"

text \<open>
  One chunk record on the wire, and the records of a sequence of reads (an empty read
  has none).
\<close>

definition chunk_record :: "string \<Rightarrow> string" where
  "chunk_record d = fmt_x (length d) @ CRLF @ d @ CRLF"

text \<open>The number a string of lowercase hexadecimal digits stands for.\<close>

definition digit_value :: "char \<Rightarrow> nat" where
  "digit_value c = length (takeWhile (\<lambda>x. x \<noteq> c) ''0123456789abcdef'')"

definition hex_value :: "string \<Rightarrow> nat" where
  "hex_value s = foldl (\<lambda>a c. 16 * a + digit_value c) 0 s"

definition chunk_records :: "string list \<Rightarrow> string" where
  "chunk_records ds = concat (map chunk_record (filter (\<lambda>d. d \<noteq> []) ds))"

text \<open>
  A source that ends: reads \<open>ds\<close> that return no error, then a read that returns the bytes
  \<open>dl\<close> together with the error \<open>e\<close> (\<open>io.EOF\<close> or a failure). What it would do
  afterwards is \<open>rest\<close>.
\<close>

definition clean_reads :: "string list \<Rightarrow> (string \<times> error option) list" where
  "clean_reads ds = map (\<lambda>d. (d, None)) ds"

definition ending_reads :: "string list \<Rightarrow> string \<Rightarrow> error \<Rightarrow> Reader \<Rightarrow> Reader" where
  "ending_reads ds dl e rest = clean_reads ds @- ((dl, Some e) ## rest)"

text \<open>The two calls that close a chunk record: \<open>WriteString("\r\n")\<close> and \<open>Flush()\<close>.\<close>

definition chunk_end :: "bufio_Writer \<Rightarrow> bufio_Writer" where
  "chunk_end w2 = snd (Flush (snd (WriteString w2 CRLF)))"

text \<open>
  A sequence of writer operations whose results are dropped, and the two such sequences
  of \<open>writeResponse\<close>: before the chunk loop and after it.
\<close>

fun bw_seq :: "string list \<Rightarrow> bufio_Writer \<Rightarrow> bufio_Writer" where
  "bw_seq [] b = b"
| "bw_seq (s # ss) b = bw_seq ss (snd (bw_op s b))"

definition head_ops :: "net_http \<Rightarrow> nat \<Rightarrow> ResponseWriter \<Rightarrow> string list" where
  "head_ops L status w = [status_line L status, Header_Write L (Header w), CRLF]"

definition tail_ops :: "error option \<Rightarrow> string list" where
  "tail_ops r = [''0'' @ CRLF] @ (case r of None \<Rightarrow> [] | Some e \<Rightarrow> [trailer_line e]) @ [CRLF, []]"

text \<open>
  The writer operations of the chunk loop, in the order of the source, for the non-empty
  reads \<open>ne\<close>: the four of one chunk record (size line, \<open>w.Write\<close> of the bytes,
  closing CRLF, \<open>Flush\<close>), and those up to and including the \<open>w.Write\<close> of the last
  read. \<open>loop_result\<close> is what the loop returns: the writer's error if it has one by that
  last \<open>w.Write\<close> (an error is sticky, so this is the error of the first payload write
  that failed), and otherwise what the last read says.
\<close>

definition chunk_ops :: "string \<Rightarrow> string list" where
  "chunk_ops d = [fmt_x (length d) @ CRLF, d, CRLF, []]"

fun payload_ops :: "string list \<Rightarrow> string list" where
  "payload_ops [] = []"
| "payload_ops [d] = [fmt_x (length d) @ CRLF, d]"
| "payload_ops (d # d' # ds) = chunk_ops d @ payload_ops (d' # ds)"

definition loop_result :: "string list \<Rightarrow> error \<Rightarrow> bufio_Writer \<Rightarrow> error option" where
  "loop_result ne e w =
     (if ne \<noteq> [] \<and> werr (bw_seq (payload_ops ne) w) \<noteq> None
      then werr (bw_seq (payload_ops ne) w)
      else if e = io_EOF then None else Some e)"

text \<open>
  The headers \<open>sendResponse\<close> leaves in the response writer, given the headers \<open>h0\<close> it
  finds there and the mime type \<open>mime0\<close> of \<open>guessMimeType\<close>, and the status it passes to
  \<open>writeResponse\<close>: the two computations of handler.go, lines 177-226, by themselves.
\<close>

definition assembled_headers :: "Header \<Rightarrow> Request \<Rightarrow> Response \<Rightarrow> string \<Rightarrow> Header" where
  "assembled_headers h0 req res mime0 =
     (let h1 = (if res_Length res > 0
                then Header_Set h0 contentLengthHeader (fmt_d (res_Length res))
                else h0);
          mime1 = (if res_Output res = Out_Reader then [] else mime0);
          h2 = (if res_Output res = Out_Reader then Header_Set h1 streamHeader ''1'' else h1);
          isChan = (res_Output res = Out_Chan \<or> res_Output res = Out_RecvChan);
          streamChans = fst (Option_Bool req ''stream-channels'');
          h3 = (if isChan then Header_Set h2 channelHeader ''1'' else h2);
          mime2 = (if isChan \<and> streamChans then applicationJson else mime1);
          h4 = (if mime2 \<noteq> [] then Header_Set h3 contentTypeHeader mime2 else h3)
      in Header_Set h4 transferEncodingHeader ''chunked'')"

definition response_status :: "Response \<Rightarrow> nat" where
  "response_status res =
     (case res_Error res of None \<Rightarrow> 200 | Some e \<Rightarrow> if Code e = ErrClient then 400 else 500)"

text \<open>
  The three header names of the CORS layer, and ASCII lower case, to say that two names
  differ in letter case only.
\<close>

definition reserved_headers :: "string list" where
  "reserved_headers = [''Access-Control-Allow-Origin'', ''Access-Control-Allow-Methods'',
                       ''Access-Control-Allow-Credentials'']"

definition ascii_lower :: "char \<Rightarrow> char" where
  "ascii_lower c =
     (case map_of (zip ''ABCDEFGHIJKLMNOPQRSTUVWXYZ'' ''abcdefghijklmnopqrstuvwxyz'') c of
        None \<Rightarrow> c
      | Some l \<Rightarrow> l)"

subsection \<open>Concrete inputs\<close>

text \<open>
  A stand-in for \<open>net/http\<close> that knows the three reason phrases the handler needs and
  writes the handler's own headers in sorted order; a response writer with no headers
  whose connection can be hijacked and then meets the faults \<open>fs\<close>; a source that is at
  its end.
\<close>

definition example_http :: net_http where
  "example_http =
     \<lparr>StatusText = (\<lambda>c. if c = 200 then ''OK'' else if c = 400 then ''Bad Request''
                          else if c = 500 then ''Internal Server Error'' else []),
      Header_Write = (\<lambda>h. concat (map (\<lambda>k. case h k of None \<Rightarrow> []
                                             | Some vs \<Rightarrow> concat (map (\<lambda>v. k @ '': '' @ v @ CRLF) vs))
                                     [''Content-Length'', ''Content-Type'', ''Transfer-Encoding'',
                                      ''X-Chunked-Output'', ''X-Stream-Output'']))\<rparr>"

definition example_writer :: "error option list \<Rightarrow> ResponseWriter" where
  "example_writer fs =
     \<lparr>Header = Map.empty,
      Hijacker = Some (Inr \<lparr>written = [], werr = None, faults = fs\<rparr>),
      calls = [],
      conn = None\<rparr>"

definition eof_forever :: Reader where
  "eof_forever = sconst ([], Some io_EOF)"

text \<open>
  A request whose encoding option is \<open>enc\<close> when \<open>found\<close>, with no other option set; a
  result of a command with a body source; a handler whose command returns that result
  whatever it is asked; a \<open>Parse\<close> that accepts every request.
\<close>

definition example_request :: "string \<Rightarrow> bool \<Rightarrow> Request" where
  "example_request enc found =
     \<lparr>Option_String = (\<lambda>n. if n = EncShort then (if found then enc else [], found, None)
                            else ([], False, None)),
      Option_Bool = (\<lambda>n. (False, False, None)),
      SetRootContext = None\<rparr>"

definition example_response :: "Request \<Rightarrow> cmds_Error option \<Rightarrow> Output \<Rightarrow> Reader \<Rightarrow> Response" where
  "example_response rq err outp body =
     \<lparr>res_Request = rq, res_Error = err, res_Reader = Inr body, res_Length = 0, res_Output = outp\<rparr>"

definition example_handler :: "(string \<times> string list) list \<Rightarrow> Response \<Rightarrow> internalHandler" where
  "example_handler hs res =
     \<lparr>ctx = \<lparr>GetNode = None\<rparr>,
      root = \<lparr>Call = (\<lambda>rq. res)\<rparr>,
      cfg = \<lparr>Headers = hs,
             CORSOpts = Some \<lparr>AllowedOrigins = Some localhostOrigins,
                              AllowedMethods = Some [''GET'', ''POST'', ''PUT'']\<rparr>\<rparr>\<rparr>"

definition example_Parse :: "http_Request \<Rightarrow> Command \<Rightarrow> error + Request" where
  "example_Parse r c = Inr (example_request ''json'' True)"

text \<open>
  An operator configuration that tries to set a CORS header, and a header collection in
  which the CORS layer has already set it.
\<close>

definition example_headers :: "(string \<times> string list) list" where
  "example_headers = [(''Access-Control-Allow-Origin'', [''*'']), (''X-Custom'', [''yes''])]"

definition cors_set_header :: Header where
  "cors_set_header = [''Access-Control-Allow-Origin'' \<mapsto> [''http://localhost'']]"

section \<open>Lemmas\<close>

lemma strings_Split_not_Nil: "strings_Split s c \<noteq> []"
  by (induction s) (auto split: list.splits)

lemma hd_strings_Split: "hd (strings_Split s c) = takeWhile (\<lambda>x. x \<noteq> c) s"
  by (induction s) (auto split: list.splits simp: strings_Split_not_Nil)

lemma sanitizedErrStr_takeWhile:
  "sanitizedErrStr e = takeWhile (\<lambda>x. x \<noteq> LF \<and> x \<noteq> CR) (Error e)"
proof -
  have "takeWhile (\<lambda>x. x \<noteq> CR) (takeWhile (\<lambda>x. x \<noteq> LF) s) = takeWhile (\<lambda>x. x \<noteq> LF \<and> x \<noteq> CR) s" for s
    by (induction s) auto
  then show ?thesis
    by (simp add: sanitizedErrStr_def Let_def hd_strings_Split)
qed

lemma bw_op_healthy:
  "healthy b \<Longrightarrow> fst (bw_op s b) = None \<and> written (snd (bw_op s b)) = written b @ s \<and> healthy (snd (bw_op s b))"
  by (auto simp: healthy_def bw_op_def split: option.splits list.splits)

lemma bw_op_broken:
  "werr b = Some e \<Longrightarrow> bw_op s b = (Some e, b)"
  by (simp add: bw_op_def)


lemma bw_op_fst: "fst (bw_op s b) = werr (snd (bw_op s b))"
  by (auto simp: bw_op_def split: option.splits list.splits)

lemma writeChunks_zero:
  "writeChunks (([], None) ## r) w = writeChunks r w"
  by (subst writeChunks.simps) (simp add: Read_def)

lemma writeChunks_zero_eof:
  "writeChunks (([], Some io_EOF) ## r) w = Some (None, w)"
  by (subst writeChunks.simps) (simp add: Read_def)

lemma writeChunks_zero_err:
  "e \<noteq> io_EOF \<Longrightarrow> writeChunks (([], Some e) ## r) w = Some (Some e, w)"
  by (subst writeChunks.simps) (simp add: Read_def)

lemma writeChunks_data:
  assumes "d \<noteq> []"
  shows "writeChunks ((d, err) ## r) w =
     (case Write (snd (WriteString w (fmt_x (length d) @ CRLF))) d of
        (Some werror, w2) \<Rightarrow> Some (Some werror, w2)
      | (None, w2) \<Rightarrow>
          (case err of None \<Rightarrow> writeChunks r (chunk_end w2)
           | Some e \<Rightarrow> if e = io_EOF then Some (None, chunk_end w2) else Some (Some e, chunk_end w2)))"
  using assms
  by (subst writeChunks.simps) (auto simp: Read_def chunk_end_def split: prod.splits option.splits)

lemma ending_reads_Nil: "ending_reads [] dl e rest = (dl, Some e) ## rest"
  by (simp add: ending_reads_def clean_reads_def)

lemma ending_reads_Cons: "ending_reads (d # ds) dl e rest = (d, None) ## ending_reads ds dl e rest"
  by (simp add: ending_reads_def clean_reads_def)

lemma chunk_records_Cons:
  "chunk_records (d # ds) = (if d = [] then chunk_records ds else chunk_record d @ chunk_records ds)"
  by (simp add: chunk_records_def)

lemma chunk_records_Nil: "chunk_records [] = []"
  by (simp add: chunk_records_def)

lemma chunk_end_healthy:
  "healthy w \<Longrightarrow> healthy (chunk_end w) \<and> written (chunk_end w) = written w @ CRLF"
  by (simp add: chunk_end_def WriteString_def Flush_def bw_op_healthy)

lemma write_chunk_healthy:
  assumes "healthy w"
  shows "\<exists>w2. Write (snd (WriteString w (fmt_x (length d) @ CRLF))) d = (None, w2) \<and> healthy w2
      \<and> written w2 = written w @ fmt_x (length d) @ CRLF @ d"
proof -
  let ?w1 = "snd (WriteString w (fmt_x (length d) @ CRLF))"
  have h1: "healthy ?w1" "written ?w1 = written w @ fmt_x (length d) @ CRLF"
    using bw_op_healthy [OF assms] by (simp_all add: WriteString_def)
  have "fst (Write ?w1 d) = None" "healthy (snd (Write ?w1 d))" "written (snd (Write ?w1 d)) = written ?w1 @ d"
    using bw_op_healthy [OF h1(1)] by (simp_all add: Write_def)
  then show ?thesis using h1(2) by (cases "Write ?w1 d") auto
qed

lemma writeChunks_healthy:
  "healthy w \<Longrightarrow>
   \<exists>w'. writeChunks (ending_reads ds dl e rest) w = Some (if e = io_EOF then None else Some e, w')
       \<and> healthy w' \<and> written w' = written w @ chunk_records (ds @ [dl])"
proof (induction ds arbitrary: w)
  case Nil
  show ?case
  proof (cases "dl = []")
    case True
    then show ?thesis using Nil
      by (simp add: ending_reads_Nil writeChunks_zero_eof writeChunks_zero_err chunk_records_def)
  next
    case False
    obtain w2 where w2: "Write (snd (WriteString w (fmt_x (length dl) @ CRLF))) dl = (None, w2)"
      "healthy w2" "written w2 = written w @ fmt_x (length dl) @ CRLF @ dl"
      using write_chunk_healthy [OF Nil] by blast
    show ?thesis using False w2 chunk_end_healthy [OF w2(2)]
      by (simp add: ending_reads_Nil writeChunks_data chunk_records_def chunk_record_def)
  qed
next
  case (Cons d ds)
  show ?case
  proof (cases "d = []")
    case True
    then show ?thesis using Cons.IH [OF Cons.prems]
      by (simp add: ending_reads_Cons writeChunks_zero chunk_records_Cons)
  next
    case False
    obtain w2 where w2: "Write (snd (WriteString w (fmt_x (length d) @ CRLF))) d = (None, w2)"
      "healthy w2" "written w2 = written w @ fmt_x (length d) @ CRLF @ d"
      using write_chunk_healthy [OF Cons.prems] by blast
    have h: "healthy (chunk_end w2)" "written (chunk_end w2) = written w2 @ CRLF"
      using chunk_end_healthy [OF w2(2)] by simp_all
    show ?thesis using False w2 h Cons.IH [OF h(1)]
      by (simp add: ending_reads_Cons writeChunks_data chunk_records_Cons chunk_record_def)
  qed
qed

lemma bw_seq_healthy:
  "healthy b \<Longrightarrow> healthy (bw_seq ss b) \<and> written (bw_seq ss b) = written b @ concat ss"
  by (induction ss arbitrary: b) (simp_all add: bw_op_healthy)

lemma bw_seq_broken: "werr b = Some x \<Longrightarrow> bw_seq ss b = b"
  by (induction ss arbitrary: b) (simp_all add: bw_op_broken)


lemma writeResponse_hijacked:
  assumes "Hijacker w = Some (Inr b)"
  shows "writeResponse L status w out =
     (case writeChunks out (bw_seq (head_ops L status w) b) of
        None \<Rightarrow> None
      | Some (r, b4) \<Rightarrow> Some (r, w\<lparr>conn := Some \<lparr>bufrw = bw_seq (tail_ops r) b4, closed = True\<rparr>\<rparr>))"
proof (cases "writeChunks out (bw_seq (head_ops L status w) b)")
  case None
  then show ?thesis using assms
    by (simp add: writeResponse_def head_ops_def WriteString_def Let_def)
next
  case (Some p)
  obtain r b4 where p: "p = (r, b4)" by (cases p)
  show ?thesis
  proof (cases r)
    case None
    with Some p assms show ?thesis
      by (simp add: writeResponse_def head_ops_def tail_ops_def WriteString_def Flush_def Let_def)
  next
    case (Some e)
    with \<open>writeChunks out (bw_seq (head_ops L status w) b) = Some p\<close> p assms show ?thesis
      by (simp add: writeResponse_def head_ops_def tail_ops_def WriteString_def Flush_def Let_def)
  qed
qed

lemma chunk_records_nonempty:
  "\<forall>d\<in>set ds. d \<noteq> [] \<Longrightarrow> chunk_records (ds @ [[]]) = concat (map (\<lambda>d. fmt_x (length d) @ CRLF @ d @ CRLF) ds)"
  by (induction ds) (simp_all add: chunk_records_def chunk_record_def)

lemma writeResponse_healthy:
  assumes hj: "Hijacker w = Some (Inr b)" and hb: "healthy b"
  shows "\<exists>b'. writeResponse L status w (ending_reads ds dl e rest)
           = Some (if e = io_EOF then None else Some e, w\<lparr>conn := Some \<lparr>bufrw = b', closed = True\<rparr>\<rparr>)
       \<and> healthy b'
       \<and> written b' = written b @ status_line L status @ Header_Write L (Header w) @ CRLF
            @ chunk_records (ds @ [dl]) @ ''0'' @ CRLF
            @ (if e = io_EOF then [] else trailer_line e) @ CRLF"
proof -
  let ?b3 = "bw_seq (head_ops L status w) b"
  from bw_seq_healthy [OF hb] have b3: "healthy ?b3" "written ?b3 = written b @ concat (head_ops L status w)"
    by simp_all
  from writeChunks_healthy [OF b3(1)] obtain b4 where b4:
    "writeChunks (ending_reads ds dl e rest) ?b3 = Some (if e = io_EOF then None else Some e, b4)"
    "healthy b4" "written b4 = written ?b3 @ chunk_records (ds @ [dl])"
    by blast
  let ?r = "if e = io_EOF then None else Some e"
  from bw_seq_healthy [OF b4(2)] have b8: "healthy (bw_seq (tail_ops ?r) b4)"
    "written (bw_seq (tail_ops ?r) b4) = written b4 @ concat (tail_ops ?r)"
    by simp_all
  have "writeResponse L status w (ending_reads ds dl e rest)
      = Some (?r, w\<lparr>conn := Some \<lparr>bufrw = bw_seq (tail_ops ?r) b4, closed = True\<rparr>\<rparr>)"
    using b4(1) by (simp add: writeResponse_hijacked [OF hj])
  moreover have "written (bw_seq (tail_ops ?r) b4) = written b @ status_line L status @ Header_Write L (Header w) @ CRLF
            @ chunk_records (ds @ [dl]) @ ''0'' @ CRLF
            @ (if e = io_EOF then [] else trailer_line e) @ CRLF"
    using b8(2) b4(3) b3(2) by (simp add: head_ops_def tail_ops_def)
  ultimately show ?thesis using b8(1) by blast
qed

lemma healthy_example: "healthy \<lparr>written = [], werr = None, faults = []\<rparr>"
  by (simp add: healthy_def)



lemma status_line_200: "status_line example_http 200 = ''HTTP/1.1 200 OK'' @ CRLF"
  by (simp add: status_line_def example_http_def fmt_d.simps digit_char_def)


lemma Hijacker_example: "Hijacker (example_writer fs) = Some (Inr \<lparr>written = [], werr = None, faults = fs\<rparr>)"
  by (simp add: example_writer_def)

lemma skipAPIHeader_iff: "skipAPIHeader k \<longleftrightarrow> k \<in> set reserved_headers"
  by (simp add: skipAPIHeader_def reserved_headers_def)

lemma set_user_headers_skip: "skipAPIHeader k \<Longrightarrow> set_user_headers hs h k = h k"
proof (induction hs arbitrary: h)
  case Nil
  then show ?case by simp
next
  case (Cons p hs)
  obtain k' v' where p: "p = (k', v')" by (cases p)
  show ?case using Cons.IH [OF Cons.prems] Cons.prems p by auto
qed

lemma set_user_headers_other: "k \<notin> fst ` set hs \<Longrightarrow> set_user_headers hs h k = h k"
proof (induction hs arbitrary: h)
  case Nil
  then show ?case by simp
next
  case (Cons p hs)
  obtain k' v' where p: "p = (k', v')" by (cases p)
  from Cons.prems p have "k \<noteq> k'" "k \<notin> fst ` set hs" by auto
  with Cons.IH p show ?case by simp
qed

lemma set_user_headers_copy:
  "distinct (map fst hs) \<Longrightarrow> (k, v) \<in> set hs \<Longrightarrow> \<not> skipAPIHeader k \<Longrightarrow> set_user_headers hs h k = Some v"
proof (induction hs arbitrary: h)
  case Nil
  then show ?case by simp
next
  case (Cons p hs)
  obtain k' v' where p: "p = (k', v')" by (cases p)
  show ?case
  proof (cases "(k, v) = p")
    case True
    with Cons.prems p have "k \<notin> fst ` set hs" "k' = k" "v' = v" by auto
    with set_user_headers_other [of k hs] Cons.prems(3) p show ?thesis by simp
  next
    case False
    with Cons.prems p have "(k, v) \<in> set hs" "distinct (map fst hs)" by auto
    from Cons.IH [OF this(2) this(1) Cons.prems(3)] p show ?thesis by simp
  qed
qed

lemma sendResponse_assembled:
  assumes "guessMimeType res = Inr mime0" and "res_Reader res = Inr out"
  shows "sendResponse L w r req res =
     (if Method r = ''HEAD'' then Some (w\<lparr>Header := assembled_headers (Header w) req res mime0\<rparr>)
      else (case writeResponse L (response_status res)
                   (w\<lparr>Header := assembled_headers (Header w) req res mime0\<rparr>) out of
              None \<Rightarrow> None
            | Some (err, w'') \<Rightarrow> Some w''))"
  using assms
  by (simp add: sendResponse_def assembled_headers_def response_status_def Let_def
           split: option.split)

lemma sendResponse_no_mime:
  "guessMimeType res = Inl err \<Longrightarrow> sendResponse L w r req res = Some (call_http_Error w (Error err) 500)"
  by (simp add: sendResponse_def)

lemma sendResponse_no_reader:
  "guessMimeType res = Inr mime0 \<Longrightarrow> res_Reader res = Inl err
   \<Longrightarrow> sendResponse L w r req res = Some (call_http_Error w (Error err) 500)"
  by (simp add: sendResponse_def Let_def)

lemma assembled_headers_reserved:
  "skipAPIHeader k \<Longrightarrow> assembled_headers h req res m k = h k"
  by (auto simp: assembled_headers_def Let_def Header_Set_def skipAPIHeader_def
        contentLengthHeader_def streamHeader_def channelHeader_def contentTypeHeader_def
        transferEncodingHeader_def split: if_splits)

lemma assembled_headers_chunked:
  "assembled_headers h req res m transferEncodingHeader = Some [''chunked'']"
  by (simp add: assembled_headers_def Let_def Header_Set_def)

lemma assembled_headers_no_mime:
  assumes "m = []"
    and "\<not> ((res_Output res = Out_Chan \<or> res_Output res = Out_RecvChan)
            \<and> fst (Option_Bool req ''stream-channels''))"
  shows "assembled_headers h req res m contentTypeHeader = h contentTypeHeader"
  using assms
  by (auto simp: assembled_headers_def Let_def Header_Set_def
        contentLengthHeader_def streamHeader_def channelHeader_def contentTypeHeader_def
        transferEncodingHeader_def)

lemma writeResponse_frame:
  assumes "writeResponse L st w out = Some (e, w')"
  shows "Header w' = Header w \<and> calls w' = calls w \<and> Hijacker w' = Hijacker w"
proof (cases "Hijacker w")
  case None
  with assms show ?thesis by (simp add: writeResponse_def)
next
  case (Some hj)
  show ?thesis
  proof (cases hj)
    case (Inl err)
    with Some assms show ?thesis by (simp add: writeResponse_def)
  next
    case (Inr b)
    with Some have hj: "Hijacker w = Some (Inr b)" by simp
    from assms show ?thesis
      unfolding writeResponse_hijacked [OF hj]
      by (auto split: option.splits)
  qed
qed

lemma sendResponse_reserved:
  assumes "sendResponse L w r req res = Some w'" and "skipAPIHeader k"
  shows "Header w' k = Header w k"
proof (cases "guessMimeType res")
  case (Inl err)
  with assms show ?thesis by (auto simp: sendResponse_no_mime call_http_Error_def)
next
  case (Inr mime0)
  show ?thesis
  proof (cases "res_Reader res")
    case (Inl err)
    with Inr assms show ?thesis by (auto simp: sendResponse_no_reader call_http_Error_def)
  next
    case (Inr out)
    let ?w = "w\<lparr>Header := assembled_headers (Header w) req res mime0\<rparr>"
    have a: "Header ?w k = Header w k" using assms(2) by (simp add: assembled_headers_reserved)
    show ?thesis
    proof (cases "Method r = ''HEAD''")
      case True
      with assms(1) a sendResponse_assembled [OF \<open>guessMimeType res = Inr mime0\<close> Inr, of L w r req]
      show ?thesis by auto
    next
      case False
      with assms(1) sendResponse_assembled [OF \<open>guessMimeType res = Inr mime0\<close> Inr, of L w r req]
      obtain err where "writeResponse L (response_status res) ?w out = Some (err, w')"
        by (auto split: option.splits)
      from writeResponse_frame [OF this] a show ?thesis by simp
    qed
  qed
qed

lemma ServeHTTP_reserved:
  assumes "ServeHTTP L Parse i w r = Some w'" and "skipAPIHeader k"
  shows "Header w' k = Header w k"
proof (cases "Parse r (root i)")
  case (Inl err)
  with assms show ?thesis by (auto simp: ServeHTTP_def)
next
  case (Inr req)
  show ?thesis
  proof (cases "GetNode (ctx i)")
    case (Some err)
    with Inr assms show ?thesis by (auto simp: ServeHTTP_def call_http_Error_def)
  next
    case None
    show ?thesis
    proof (cases "SetRootContext req")
      case (Some err)
      with Inr None assms show ?thesis by (auto simp: ServeHTTP_def call_http_Error_def)
    next
      case N: None
      let ?w = "w\<lparr>Header := set_user_headers (Headers (cfg i)) (Header w)\<rparr>"
      from Inr None N assms(1) have "sendResponse L ?w r req (Call (root i) req) = Some w'"
        by (simp add: ServeHTTP_def Let_def)
      from sendResponse_reserved [OF this assms(2)] show ?thesis
        by (simp add: set_user_headers_skip [OF assms(2)])
    qed
  qed
qed

lemma guessMimeType_example:
  "guessMimeType (example_response (example_request ''json'' True) err outp body) = Inr ''application/json''"
  by (simp add: guessMimeType_def example_response_def example_request_def mimeTypes_index_def
        mimeTypes_def cmds_JSON_def cmds_XML_def cmds_Text_def)

lemma res_Reader_example: "res_Reader (example_response rq err outp body) = Inr body"
  by (simp add: example_response_def)

lemma SetRootContext_example: "SetRootContext (example_request enc found) = None"
  by (simp add: example_request_def)

lemma res_Error_example: "res_Error (example_response rq err outp body) = err"
  by (simp add: example_response_def)

lemma status_line_400: "status_line example_http 400 = ''HTTP/1.1 400 Bad Request'' @ CRLF"
  by (simp add: status_line_def example_http_def fmt_d.simps digit_char_def)

lemma status_line_500: "status_line example_http 500 = ''HTTP/1.1 500 Internal Server Error'' @ CRLF"
  by (simp add: status_line_def example_http_def fmt_d.simps digit_char_def)

lemma guessMimeType_example_unknown:
  "guessMimeType (example_response (example_request ''protobuf'' True) err outp body) = Inr []"
  by (simp add: guessMimeType_def example_response_def example_request_def mimeTypes_index_def
        mimeTypes_def cmds_JSON_def cmds_XML_def cmds_Text_def)

lemma digit_value_digit_char: "d < 16 \<Longrightarrow> digit_value (digit_char d) = d"
proof -
  have "\<forall>d\<in>set [0..<16]. digit_value (digit_char d) = d"
    by (simp add: upt_rec digit_value_def digit_char_def)
  moreover assume "d < 16"
  ultimately show ?thesis by simp
qed

lemma digit_char_lowercase: "d < 16 \<Longrightarrow> digit_char d \<in> set ''0123456789abcdef''"
  unfolding digit_char_def by (rule nth_mem) simp

lemma fmt_x_lowercase: "set (fmt_x n) \<subseteq> set ''0123456789abcdef''"
proof (induction n rule: fmt_x.induct)
  case (1 n)
  show ?case
  proof (cases "n < 16")
    case True
    then show ?thesis using digit_char_lowercase [OF True]
      by (subst fmt_x.simps) simp
  next
    case False
    have "n mod 16 < 16" by simp
    from digit_char_lowercase [OF this] "1.IH" [OF False] False show ?thesis
      by (subst fmt_x.simps) simp
  qed
qed

lemma hex_value_fmt_x: "hex_value (fmt_x n) = n"
proof (induction n rule: fmt_x.induct)
  case (1 n)
  show ?case
  proof (cases "n < 16")
    case True
    then show ?thesis
      by (subst fmt_x.simps) (simp add: hex_value_def digit_value_digit_char)
  next
    case False
    have "hex_value (fmt_x (n div 16) @ [digit_char (n mod 16)])
        = 16 * hex_value (fmt_x (n div 16)) + digit_value (digit_char (n mod 16))"
      by (simp add: hex_value_def)
    also have "\<dots> = 16 * (n div 16) + n mod 16"
      using "1.IH" [OF False] by (simp add: digit_value_digit_char)
    also have "\<dots> = n" by simp
    finally show ?thesis using False by (subst fmt_x.simps) simp
  qed
qed

lemma bw_seq_append: "bw_seq (xs @ ys) b = bw_seq ys (bw_seq xs b)"
  by (induction xs arbitrary: b) simp_all

lemma payload_ops_Cons:
  "payload_ops (d # ne) = [fmt_x (length d) @ CRLF, d] @ (if ne = [] then [] else [CRLF, []] @ payload_ops ne)"
  by (cases ne) (simp_all add: chunk_ops_def)

lemma chunk_ops_split: "chunk_ops d = [fmt_x (length d) @ CRLF, d] @ [CRLF, []]"
  by (simp add: chunk_ops_def)


lemma write_payload:
  "Write (snd (WriteString w s)) d = (werr (bw_seq [s, d] w), bw_seq [s, d] w)"
  using bw_op_fst [of d "snd (bw_op s w)"]
  by (simp add: Write_def WriteString_def prod_eq_iff)

lemma chunk_end_seq: "chunk_end w2 = bw_seq [CRLF, []] w2"
  by (simp add: chunk_end_def WriteString_def Flush_def)

lemma loop_result_Nil: "loop_result [] e w = (if e = io_EOF then None else Some e)"
  by (simp add: loop_result_def)

lemma loop_result_fail:
  assumes "werr (bw_seq [fmt_x (length d) @ CRLF, d] w) = Some x"
  shows "loop_result (d # ne) e w = Some x"
    and "bw_seq (concat (map chunk_ops (d # ne))) w = bw_seq [fmt_x (length d) @ CRLF, d] w"
proof -
  let ?w2 = "bw_seq [fmt_x (length d) @ CRLF, d] w"
  have a: "bw_seq (payload_ops (d # ne)) w = ?w2"
    unfolding payload_ops_Cons bw_seq_append using bw_seq_broken [OF assms] by simp
  show "loop_result (d # ne) e w = Some x"
    unfolding loop_result_def a using assms by simp
  have "concat (map chunk_ops (d # ne)) = [fmt_x (length d) @ CRLF, d] @ ([CRLF, []] @ concat (map chunk_ops ne))"
    by (simp add: chunk_ops_def)
  then have "bw_seq (concat (map chunk_ops (d # ne))) w
      = bw_seq ([CRLF, []] @ concat (map chunk_ops ne)) ?w2"
    by (simp only: bw_seq_append)
  also have "\<dots> = ?w2" by (rule bw_seq_broken [OF assms])
  finally show "bw_seq (concat (map chunk_ops (d # ne))) w = ?w2" .
qed

lemma loop_result_ok:
  assumes "werr (bw_seq [fmt_x (length d) @ CRLF, d] w) = None"
  shows "loop_result (d # ne) e w = loop_result ne e (bw_seq (chunk_ops d) w)"
proof (cases ne)
  case Nil
  then show ?thesis using assms by (simp add: loop_result_def)
next
  case (Cons d' ds)
  have "bw_seq (payload_ops (d # ne)) w = bw_seq (payload_ops ne) (bw_seq (chunk_ops d) w)"
    using Cons by (simp add: bw_seq_append)
  then show ?thesis using Cons by (simp add: loop_result_def)
qed

lemma writeChunks_exact:
  "writeChunks (ending_reads ds dl e rest) w =
     Some (loop_result (filter (\<lambda>d. d \<noteq> []) (ds @ [dl])) e w,
           bw_seq (concat (map chunk_ops (filter (\<lambda>d. d \<noteq> []) (ds @ [dl])))) w)"
proof (induction ds arbitrary: w)
  case Nil
  show ?case
  proof (cases "dl = []")
    case True
    then show ?thesis
      by (cases "e = io_EOF")
         (simp_all add: ending_reads_Nil writeChunks_zero_eof writeChunks_zero_err loop_result_Nil)
  next
    case False
    let ?w2 = "bw_seq [fmt_x (length dl) @ CRLF, dl] w"
    show ?thesis
    proof (cases "werr ?w2")
      case None
      have "loop_result [dl] e w = (if e = io_EOF then None else Some e)"
        using loop_result_ok [OF None, where ne = "[]" and e = e] by (simp add: loop_result_Nil)
      moreover have "bw_seq (chunk_ops dl) w = chunk_end ?w2"
        by (simp add: chunk_end_seq chunk_ops_def)
      ultimately show ?thesis using False None
        by (cases "e = io_EOF")
           (simp_all add: ending_reads_Nil writeChunks_data write_payload del: bw_seq.simps)
    next
      case (Some x)
      from loop_result_fail(1) [OF Some, where ne = "[]" and e = e]
        loop_result_fail(2) [OF Some, where ne = "[]"] Some False show ?thesis
        by (simp add: ending_reads_Nil writeChunks_data write_payload del: bw_seq.simps)
    qed
  qed
next
  case (Cons d ds)
  let ?ne = "filter (\<lambda>d. d \<noteq> []) (ds @ [dl])"
  show ?case
  proof (cases "d = []")
    case True
    then show ?thesis using Cons.IH [of w]
      by (simp add: ending_reads_Cons writeChunks_zero)
  next
    case False
    let ?w2 = "bw_seq [fmt_x (length d) @ CRLF, d] w"
    show ?thesis
    proof (cases "werr ?w2")
      case None
      have a: "bw_seq (concat (map chunk_ops (d # ?ne))) w
          = bw_seq (concat (map chunk_ops ?ne)) (chunk_end ?w2)"
        by (simp add: chunk_end_seq chunk_ops_def bw_seq_append)
      have b: "loop_result (d # ?ne) e w = loop_result ?ne e (chunk_end ?w2)"
        using loop_result_ok [OF None, where ne = ?ne and e = e] by (simp add: chunk_end_seq chunk_ops_def)
      have "writeChunks (ending_reads (d # ds) dl e rest) w
          = writeChunks (ending_reads ds dl e rest) (chunk_end ?w2)"
        using False None
        by (simp add: ending_reads_Cons writeChunks_data write_payload del: bw_seq.simps)
      also have "\<dots> = Some (loop_result ?ne e (chunk_end ?w2),
                             bw_seq (concat (map chunk_ops ?ne)) (chunk_end ?w2))"
        by (rule Cons.IH)
      finally show ?thesis using False a b by (simp del: bw_seq.simps)
    next
      case (Some x)
      from loop_result_fail(1) [OF Some, where ne = ?ne and e = e]
        loop_result_fail(2) [OF Some, where ne = ?ne] Some False show ?thesis
        by (simp add: ending_reads_Cons writeChunks_data write_payload del: bw_seq.simps)
    qed
  qed
qed





lemma assembled_headers_other:
  assumes "k \<notin> {contentLengthHeader, streamHeader, channelHeader, contentTypeHeader, transferEncodingHeader}"
  shows "assembled_headers h req res m k = h k"
  using assms by (simp add: assembled_headers_def Let_def Header_Set_def)

lemma writeResponse_returns:
  "\<exists>p. writeResponse L st w (ending_reads ds dl e rest) = Some p"
proof (cases "Hijacker w")
  case None
  then show ?thesis by (simp add: writeResponse_def)
next
  case (Some hj)
  show ?thesis
  proof (cases hj)
    case (Inl err)
    with Some show ?thesis by (simp add: writeResponse_def)
  next
    case (Inr b)
    with Some have hj: "Hijacker w = Some (Inr b)" by simp
    show ?thesis
      by (simp add: writeResponse_hijacked [OF hj] writeChunks_exact)
  qed
qed

lemma sendResponse_returns:
  assumes "Method r = ''HEAD'' \<or> res_Reader res = Inr (ending_reads ds dl e rest)"
  shows "\<exists>w'. sendResponse L w r req res = Some w'"
proof (cases "guessMimeType res")
  case (Inl err)
  then show ?thesis by (simp add: sendResponse_no_mime)
next
  case (Inr mime0)
  show ?thesis
  proof (cases "res_Reader res")
    case (Inl err)
    with Inr show ?thesis by (simp add: sendResponse_no_reader)
  next
    case R: (Inr out)
    show ?thesis
    proof (cases "Method r = ''HEAD''")
      case True
      then show ?thesis by (simp add: sendResponse_assembled [OF Inr R])
    next
      case False
      with assms R have o: "out = ending_reads ds dl e rest" by simp
      obtain p where "writeResponse L (response_status res)
          (w\<lparr>Header := assembled_headers (Header w) req res mime0\<rparr>) out = Some p"
        using writeResponse_returns [of L "response_status res" _ ds dl e rest] o by blast
      with False show ?thesis
        by (cases p) (simp add: sendResponse_assembled [OF Inr R])
    qed
  qed
qed

lemma sendResponse_other:
  assumes "guessMimeType res = Inr mime0" and "res_Reader res = Inr out"
    and "k \<notin> {contentLengthHeader, streamHeader, channelHeader, contentTypeHeader, transferEncodingHeader}"
    and "sendResponse L w r req res = Some w'"
  shows "Header w' k = Header w k"
proof -
  let ?w = "w\<lparr>Header := assembled_headers (Header w) req res mime0\<rparr>"
  have a: "Header ?w k = Header w k" using assembled_headers_other [OF assms(3)] by simp
  show ?thesis
  proof (cases "Method r = ''HEAD''")
    case True
    with assms(4) a show ?thesis by (auto simp: sendResponse_assembled [OF assms(1,2)])
  next
    case False
    with assms(4) obtain err where "writeResponse L (response_status res) ?w out = Some (err, w')"
      by (auto simp: sendResponse_assembled [OF assms(1,2)] split: option.splits)
    from writeResponse_frame [OF this] a show ?thesis by simp
  qed
qed

lemma ServeHTTP_applies:
  assumes "Parse r (root i) = Inr req" and "GetNode (ctx i) = None" and "SetRootContext req = None"
  shows "ServeHTTP L Parse i w r
     = sendResponse L (w\<lparr>Header := set_user_headers (Headers (cfg i)) (Header w)\<rparr>) r req
         (Call (root i) req)"
  using assms by (simp add: ServeHTTP_def Let_def)

lemma ServeHTTP_copies:
  assumes "Parse r (root i) = Inr req" and "GetNode (ctx i) = None" and "SetRootContext req = None"
    and "guessMimeType (Call (root i) req) = Inr mime0" and "res_Reader (Call (root i) req) = Inr out"
    and "\<not> skipAPIHeader k" and "distinct (map fst (Headers (cfg i)))" and "(k, v) \<in> set (Headers (cfg i))"
    and "k \<notin> {contentLengthHeader, streamHeader, channelHeader, contentTypeHeader, transferEncodingHeader}"
    and "ServeHTTP L Parse i w r = Some w'"
  shows "Header w' k = Some v"
proof -
  let ?w = "w\<lparr>Header := set_user_headers (Headers (cfg i)) (Header w)\<rparr>"
  from assms(10) have "sendResponse L ?w r req (Call (root i) req) = Some w'"
    by (simp add: ServeHTTP_applies [where Parse = Parse and r = r and i = i, OF assms(1-3)])
  from sendResponse_other [OF assms(4,5,9) this]
  show ?thesis by (simp add: set_user_headers_copy [OF assms(7,8,6)])
qed

lemma ServeHTTP_returns:
  assumes "Parse r (root i) = Inr req" and "GetNode (ctx i) = None" and "SetRootContext req = None"
    and "Method r = ''HEAD'' \<or> res_Reader (Call (root i) req) = Inr (ending_reads ds dl e rest)"
  shows "\<exists>w'. ServeHTTP L Parse i w r = Some w'"
  using sendResponse_returns [OF assms(4)] by (simp add: ServeHTTP_applies [where Parse = Parse and r = r and i = i, OF assms(1-3)])

lemma lower_reserved_not_assembled:
  assumes "map ascii_lower k \<in> set (map (map ascii_lower) reserved_headers)"
  shows "k \<notin> {contentLengthHeader, streamHeader, channelHeader, contentTypeHeader, transferEncodingHeader}"
proof
  assume "k \<in> {contentLengthHeader, streamHeader, channelHeader, contentTypeHeader, transferEncodingHeader}"
  then consider "k = contentLengthHeader" | "k = streamHeader" | "k = channelHeader"
    | "k = contentTypeHeader" | "k = transferEncodingHeader" by auto
  then show False
  proof cases
    case 1 with assms show False by (simp add: contentLengthHeader_def reserved_headers_def ascii_lower_def)
  next
    case 2 with assms show False by (simp add: streamHeader_def reserved_headers_def ascii_lower_def)
  next
    case 3 with assms show False by (simp add: channelHeader_def reserved_headers_def ascii_lower_def)
  next
    case 4 with assms show False by (simp add: contentTypeHeader_def reserved_headers_def ascii_lower_def)
  next
    case 5 with assms show False by (simp add: transferEncodingHeader_def reserved_headers_def ascii_lower_def)
  qed
qed

lemma example_handler_simps:
  "Headers (cfg (example_handler hs res)) = hs"
  "GetNode (ctx (example_handler hs res)) = None"
  "Call (root (example_handler hs res)) rq = res"
  by (simp_all add: example_handler_def)

lemma example_Parse_simp: "example_Parse r c = Inr (example_request ''json'' True)"
  by (simp add: example_Parse_def)

section \<open>The properties\<close>

text \<open>
  C1. A source that yields N non-empty reads and then a clean end (\<open>io.EOF\<close>): on a
  connection that does not fail, \<open>writeResponse\<close> returns without error and has written
  the status line, the header block and the blank line, then exactly the N chunk records
  in read order, each the lowercase hexadecimal byte count, CRLF, the bytes, CRLF, then
  one \<open>0\<close> CRLF, no trailer, and the final CRLF. Each size prefix is made of the
  digits \<open>0-9a-f\<close> and reads back as the byte count of its read.
\<close>

theorem writeResponse_clean_source:
  assumes "Hijacker w = Some (Inr b)" and "healthy b" and "\<forall>d\<in>set ds. d \<noteq> []"
  shows "(\<exists>b'. writeResponse L status w (map (\<lambda>d. (d, None)) ds @- (([], Some io_EOF) ## rest))
           = Some (None, w\<lparr>conn := Some \<lparr>bufrw = b', closed = True\<rparr>\<rparr>)
       \<and> written b' = written b @ status_line L status @ Header_Write L (Header w) @ CRLF
            @ concat (map (\<lambda>d. fmt_x (length d) @ CRLF @ d @ CRLF) ds)
            @ ''0'' @ CRLF @ CRLF)
     \<and> (\<forall>d\<in>set ds. hex_value (fmt_x (length d)) = length d
            \<and> set (fmt_x (length d)) \<subseteq> set ''0123456789abcdef'')"
proof -
  have "\<exists>b'. writeResponse L status w (map (\<lambda>d. (d, None)) ds @- (([], Some io_EOF) ## rest))
           = Some (None, w\<lparr>conn := Some \<lparr>bufrw = b', closed = True\<rparr>\<rparr>)
       \<and> written b' = written b @ status_line L status @ Header_Write L (Header w) @ CRLF
            @ concat (map (\<lambda>d. fmt_x (length d) @ CRLF @ d @ CRLF) ds)
            @ ''0'' @ CRLF @ CRLF"
    using writeResponse_healthy [OF assms(1,2), of L status ds "[]" io_EOF rest]
      chunk_records_nonempty [OF assms(3)]
    by (auto simp: ending_reads_def clean_reads_def)
  moreover have "\<forall>d\<in>set ds. hex_value (fmt_x (length d)) = length d
            \<and> set (fmt_x (length d)) \<subseteq> set ''0123456789abcdef''"
    using fmt_x_lowercase by (simp add: hex_value_fmt_x)
  ultimately show ?thesis by (rule conjI)
qed

theorem writeResponse_clean_source_witness:
  "Hijacker (example_writer []) = Some (Inr \<lparr>written = [], werr = None, faults = []\<rparr>)
   \<and> healthy \<lparr>written = [], werr = None, faults = []\<rparr>
   \<and> ''hello'' \<noteq> [] \<and> ''chunked world!!'' \<noteq> []
   \<and> (\<exists>b'. writeResponse example_http 200 (example_writer [])
               (map (\<lambda>d. (d, None)) [''hello'', ''chunked world!!''] @- (([], Some io_EOF) ## eof_forever))
           = Some (None, example_writer [] \<lparr>conn := Some \<lparr>bufrw = b', closed = True\<rparr>\<rparr>)
       \<and> written b' = ''HTTP/1.1 200 OK'' @ CRLF @ CRLF
            @ ''5'' @ CRLF @ ''hello'' @ CRLF @ ''f'' @ CRLF @ ''chunked world!!'' @ CRLF
            @ ''0'' @ CRLF @ CRLF)"
proof -
  have h: "Hijacker (example_writer []) = Some (Inr \<lparr>written = [], werr = None, faults = []\<rparr>)"
    by (simp add: example_writer_def)
  have n: "\<forall>d\<in>set [''hello'', ''chunked world!!'']. d \<noteq> []" by simp
  have s: "status_line example_http 200 = ''HTTP/1.1 200 OK'' @ CRLF"
    by (simp add: status_line_def example_http_def fmt_d.simps digit_char_def)
  have hw: "Header_Write example_http (Header (example_writer [])) = []"
    by (simp add: example_http_def example_writer_def)
  show ?thesis
    using writeResponse_clean_source [OF h healthy_example n, of example_http 200 eof_forever] h
    by (simp add: s hw fmt_x.simps digit_char_def healthy_example)
qed




text \<open>
  C3. \<open>sanitizedErrStr\<close> returns the error's message cut at the first line feed or
  carriage return, so the text after \<open>X-Stream-Error: \<close> in the trailer line holds
  neither character.
\<close>

theorem sanitizedErrStr_single_line:
  "sanitizedErrStr e = takeWhile (\<lambda>c. c \<noteq> LF \<and> c \<noteq> CR) (Error e)
   \<and> LF \<notin> set (sanitizedErrStr e) \<and> CR \<notin> set (sanitizedErrStr e)
   \<and> trailer_line e = ''X-Stream-Error: '' @ sanitizedErrStr e @ [CR, LF]"
proof -
  have "x \<in> set (takeWhile P xs) \<Longrightarrow> P x" for P and x :: char and xs
    by (rule set_takeWhileD [THEN conjunct2])
  then have "LF \<notin> set (takeWhile (\<lambda>c. c \<noteq> LF \<and> c \<noteq> CR) (Error e))"
    "CR \<notin> set (takeWhile (\<lambda>c. c \<noteq> LF \<and> c \<noteq> CR) (Error e))"
    by blast+
  then show ?thesis
    by (simp add: sanitizedErrStr_takeWhile trailer_line_def StreamErrHeader_def CRLF_def)
qed

theorem sanitizedErrStr_single_line_witness:
  "sanitizedErrStr (errors_New (''boom'' @ [CR, LF] @ ''data'')) = ''boom''
   \<and> trailer_line (errors_New (''boom'' @ [CR, LF] @ ''data'')) = ''X-Stream-Error: boom'' @ [CR, LF]"
  using sanitizedErrStr_single_line [of "errors_New (''boom'' @ [CR, LF] @ ''data'')"]
  by (simp add: CR_def LF_def)

text \<open>
  C4. A read of 0 bytes with no error writes nothing and the loop goes on with the next
  read. Reads of 10, 0 and 5 bytes and then \<open>io.EOF\<close> give the two chunk records with the
  sizes \<open>a\<close> and \<open>5\<close>; a source that is empty from the start still gives the head, the
  terminal \<open>0\<close> CRLF and the closing blank line.
\<close>

theorem writeChunks_empty_read:
  assumes "Hijacker w = Some (Inr b)" and "healthy b" and "length d1 = 10" and "length d2 = 5"
  shows "writeChunks (([], None) ## r) bw = writeChunks r bw
     \<and> (\<exists>b'. writeResponse L status w ([(d1, None), ([], None), (d2, None)] @- (([], Some io_EOF) ## rest))
              = Some (None, w\<lparr>conn := Some \<lparr>bufrw = b', closed = True\<rparr>\<rparr>)
          \<and> written b' = written b @ status_line L status @ Header_Write L (Header w) @ CRLF
               @ ''a'' @ CRLF @ d1 @ CRLF @ ''5'' @ CRLF @ d2 @ CRLF
               @ ''0'' @ CRLF @ CRLF)
     \<and> (\<exists>b'. writeResponse L status w (([], Some io_EOF) ## rest)
              = Some (None, w\<lparr>conn := Some \<lparr>bufrw = b', closed = True\<rparr>\<rparr>)
          \<and> written b' = written b @ status_line L status @ Header_Write L (Header w) @ CRLF
               @ ''0'' @ CRLF @ CRLF)"
proof (intro conjI)
  show "writeChunks (([], None) ## r) bw = writeChunks r bw"
    by (rule writeChunks_zero)
  have ne: "d1 \<noteq> []" "d2 \<noteq> []" using assms(3,4) by auto
  have "chunk_records ([d1, [], d2] @ [[]]) = ''a'' @ CRLF @ d1 @ CRLF @ ''5'' @ CRLF @ d2 @ CRLF"
    using ne assms(3,4) by (simp add: chunk_records_def chunk_record_def fmt_x.simps digit_char_def)
  then show "\<exists>b'. writeResponse L status w ([(d1, None), ([], None), (d2, None)] @- (([], Some io_EOF) ## rest))
              = Some (None, w\<lparr>conn := Some \<lparr>bufrw = b', closed = True\<rparr>\<rparr>)
          \<and> written b' = written b @ status_line L status @ Header_Write L (Header w) @ CRLF
               @ ''a'' @ CRLF @ d1 @ CRLF @ ''5'' @ CRLF @ d2 @ CRLF
               @ ''0'' @ CRLF @ CRLF"
    using writeResponse_healthy [OF assms(1,2), of L status "[d1, [], d2]" "[]" io_EOF rest]
    by (auto simp: ending_reads_def clean_reads_def)
  show "\<exists>b'. writeResponse L status w (([], Some io_EOF) ## rest)
              = Some (None, w\<lparr>conn := Some \<lparr>bufrw = b', closed = True\<rparr>\<rparr>)
          \<and> written b' = written b @ status_line L status @ Header_Write L (Header w) @ CRLF
               @ ''0'' @ CRLF @ CRLF"
    using writeResponse_healthy [OF assms(1,2), of L status "[]" "[]" io_EOF rest]
    by (auto simp: ending_reads_def clean_reads_def chunk_records_def)
qed

theorem writeChunks_empty_read_witness:
  "Hijacker (example_writer []) = Some (Inr \<lparr>written = [], werr = None, faults = []\<rparr>)
   \<and> healthy \<lparr>written = [], werr = None, faults = []\<rparr>
   \<and> length ''0123456789'' = 10 \<and> length ''abcde'' = 5
   \<and> (\<exists>b'. writeResponse example_http 200 (example_writer [])
              ([(''0123456789'', None), ([], None), (''abcde'', None)] @- (([], Some io_EOF) ## eof_forever))
              = Some (None, example_writer [] \<lparr>conn := Some \<lparr>bufrw = b', closed = True\<rparr>\<rparr>)
          \<and> written b' = ''HTTP/1.1 200 OK'' @ CRLF @ CRLF
               @ ''a'' @ CRLF @ ''0123456789'' @ CRLF @ ''5'' @ CRLF @ ''abcde'' @ CRLF
               @ ''0'' @ CRLF @ CRLF)
   \<and> (\<exists>b'. writeResponse example_http 200 (example_writer []) (([], Some io_EOF) ## eof_forever)
              = Some (None, example_writer [] \<lparr>conn := Some \<lparr>bufrw = b', closed = True\<rparr>\<rparr>)
          \<and> written b' = ''HTTP/1.1 200 OK'' @ CRLF @ CRLF @ ''0'' @ CRLF @ CRLF)"
proof -
  have h: "Hijacker (example_writer []) = Some (Inr \<lparr>written = [], werr = None, faults = []\<rparr>)"
    by (simp add: example_writer_def)
  have l: "length ''0123456789'' = 10" "length ''abcde'' = 5" by simp_all
  have s: "status_line example_http 200 = ''HTTP/1.1 200 OK'' @ CRLF"
    by (simp add: status_line_def example_http_def fmt_d.simps digit_char_def)
  have hw: "Header_Write example_http (Header (example_writer [])) = []"
    by (simp add: example_http_def example_writer_def)
  show ?thesis
    using writeChunks_empty_read [OF h healthy_example l, where L = example_http and status = 200
        and rest = eof_forever and r = eof_forever and bw = "\<lparr>written = [], werr = None, faults = []\<rparr>"] h
    by (simp add: s hw healthy_example)
qed

text \<open>
  C5. \<open>skipAPIHeader\<close> holds of exactly the three CORS header names. The loop over the
  operator's headers never changes the entry of such a name and copies every other entry
  of the map; and whatever the command returns, the entry of such a name is the same
  after \<open>ServeHTTP\<close> as before it. On a request that reaches the command, \<open>ServeHTTP\<close>
  is \<open>sendResponse\<close> on the response writer with these headers applied; it returns on a
  HEAD request and on a source that ends; and whatever the command's result, every entry
  of the map under another name is in the response writer's headers when \<open>ServeHTTP\<close>
  has returned, unless it is one of the five headers \<open>sendResponse\<close> sets itself (the
  two returns through \<open>http.Error\<close> left aside, whose header changes belong to the
  library).
\<close>

theorem user_headers_skip_cors:
  "(skipAPIHeader k \<longleftrightarrow> k = ''Access-Control-Allow-Origin'' \<or> k = ''Access-Control-Allow-Methods''
        \<or> k = ''Access-Control-Allow-Credentials'')
   \<and> (skipAPIHeader k \<longrightarrow> set_user_headers hs h k = h k)
   \<and> (\<not> skipAPIHeader k \<longrightarrow> distinct (map fst hs) \<longrightarrow> (k, v) \<in> set hs
        \<longrightarrow> set_user_headers hs h k = Some v)
   \<and> (skipAPIHeader k \<longrightarrow> (\<forall>w'. ServeHTTP L Parse i w r = Some w' \<longrightarrow> Header w' k = Header w k))
   \<and> (Parse r (root i) = Inr req \<longrightarrow> GetNode (ctx i) = None \<longrightarrow> SetRootContext req = None \<longrightarrow>
        ServeHTTP L Parse i w r
          = sendResponse L (w\<lparr>Header := set_user_headers (Headers (cfg i)) (Header w)\<rparr>) r req
              (Call (root i) req)
        \<and> (Method r = ''HEAD''
             \<or> res_Reader (Call (root i) req) = Inr (map (\<lambda>d. (d, None)) ds @- ((dl, Some e) ## rest))
            \<longrightarrow> (\<exists>w'. ServeHTTP L Parse i w r = Some w'))
        \<and> (\<not> skipAPIHeader k \<longrightarrow> distinct (map fst (Headers (cfg i)))
            \<longrightarrow> (k, v) \<in> set (Headers (cfg i))
            \<longrightarrow> k \<notin> {contentLengthHeader, streamHeader, channelHeader, contentTypeHeader,
                      transferEncodingHeader}
            \<longrightarrow> guessMimeType (Call (root i) req) = Inr mime
            \<longrightarrow> res_Reader (Call (root i) req) = Inr out
            \<longrightarrow> (\<forall>w'. ServeHTTP L Parse i w r = Some w' \<longrightarrow> Header w' k = Some v)))"
proof (intro conjI impI allI)
  show "skipAPIHeader k \<longleftrightarrow> k = ''Access-Control-Allow-Origin'' \<or> k = ''Access-Control-Allow-Methods''
        \<or> k = ''Access-Control-Allow-Credentials''"
    by (simp add: skipAPIHeader_def)
  show "set_user_headers hs h k = h k" if "skipAPIHeader k"
    using that by (rule set_user_headers_skip)
  show "set_user_headers hs h k = Some v" if "\<not> skipAPIHeader k" "distinct (map fst hs)" "(k, v) \<in> set hs"
    using that(2,3,1) by (rule set_user_headers_copy)
  show "Header w' k = Header w k" if "skipAPIHeader k" "ServeHTTP L Parse i w r = Some w'" for w'
    using that(2,1) by (rule ServeHTTP_reserved)
next
  assume a: "Parse r (root i) = Inr req" "GetNode (ctx i) = None" "SetRootContext req = None"
  show "ServeHTTP L Parse i w r
          = sendResponse L (w\<lparr>Header := set_user_headers (Headers (cfg i)) (Header w)\<rparr>) r req
              (Call (root i) req)"
    using a by (rule ServeHTTP_applies)
  show "\<exists>w'. ServeHTTP L Parse i w r = Some w'"
    if "Method r = ''HEAD''
        \<or> res_Reader (Call (root i) req) = Inr (map (\<lambda>d. (d, None)) ds @- ((dl, Some e) ## rest))"
    using ServeHTTP_returns [where Parse = Parse and r = r and i = i, OF a, of ds dl e rest] that
    by (simp add: ending_reads_def clean_reads_def)
  show "Header w' k = Some v"
    if "\<not> skipAPIHeader k" "distinct (map fst (Headers (cfg i)))" "(k, v) \<in> set (Headers (cfg i))"
      "k \<notin> {contentLengthHeader, streamHeader, channelHeader, contentTypeHeader, transferEncodingHeader}"
      "guessMimeType (Call (root i) req) = Inr mime" "res_Reader (Call (root i) req) = Inr out"
      "ServeHTTP L Parse i w r = Some w'" for w'
    using ServeHTTP_copies [where Parse = Parse and r = r and i = i, OF a that(5,6,1,2,3,4,7)] .
qed

theorem user_headers_skip_cors_witness:
  "skipAPIHeader ''Access-Control-Allow-Origin''
   \<and> set_user_headers example_headers cors_set_header ''Access-Control-Allow-Origin''
       = Some [''http://localhost'']
   \<and> \<not> skipAPIHeader ''X-Custom''
   \<and> distinct (map fst example_headers)
   \<and> (''X-Custom'', [''yes'']) \<in> set example_headers
   \<and> set_user_headers example_headers cors_set_header ''X-Custom'' = Some [''yes'']
   \<and> (\<exists>w'. ServeHTTP example_http example_Parse
               (example_handler example_headers
                  (example_response (example_request ''json'' True) None Out_Value
                     (map (\<lambda>d. (d, None)) [''{}''] @- (([], Some io_EOF) ## eof_forever))))
               ((example_writer []) \<lparr>Header := cors_set_header\<rparr>) \<lparr>Method = ''GET''\<rparr> = Some w'
        \<and> Header w' ''Access-Control-Allow-Origin'' = Some [''http://localhost'']
        \<and> Header w' ''X-Custom'' = Some [''yes''])"
proof -
  let ?body = "map (\<lambda>d. (d, None)) [''{}''] @- (([], Some io_EOF) ## eof_forever)"
  let ?res = "example_response (example_request ''json'' True) None Out_Value ?body"
  let ?i = "example_handler example_headers ?res"
  let ?w = "(example_writer []) \<lparr>Header := cors_set_header\<rparr>"
  let ?r = "\<lparr>Method = ''GET''\<rparr>"
  have s: "skipAPIHeader ''Access-Control-Allow-Origin''" "\<not> skipAPIHeader ''X-Custom''"
    by (simp_all add: skipAPIHeader_def)
  have d: "distinct (map fst example_headers)" "(''X-Custom'', [''yes'']) \<in> set example_headers"
    by (simp_all add: example_headers_def)
  have c: "cors_set_header ''Access-Control-Allow-Origin'' = Some [''http://localhost'']"
    by (simp add: cors_set_header_def)
  have o: "''X-Custom'' \<notin> {contentLengthHeader, streamHeader, channelHeader, contentTypeHeader,
      transferEncodingHeader}"
    by (simp add: contentLengthHeader_def streamHeader_def channelHeader_def contentTypeHeader_def
          transferEncodingHeader_def)
  note T = user_headers_skip_cors [where hs = example_headers and h = cors_set_header
      and L = example_http and Parse = example_Parse and i = ?i and w = ?w and r = ?r
      and req = "example_request ''json'' True" and ds = "[''{}'']" and dl = "[]" and e = io_EOF
      and rest = eof_forever and mime = "''application/json''" and out = ?body]
  have p: "example_Parse ?r (root ?i) = Inr (example_request ''json'' True)" by (rule example_Parse_simp)
  have gn: "GetNode (ctx ?i) = None" by (rule example_handler_simps)
  have g: "guessMimeType (Call (root ?i) (example_request ''json'' True)) = Inr ''application/json''"
    by (simp add: example_handler_simps guessMimeType_example)
  have rd: "res_Reader (Call (root ?i) (example_request ''json'' True)) = Inr ?body"
    by (simp add: example_handler_simps res_Reader_example)
  have d': "distinct (map fst (Headers (cfg ?i)))" "(''X-Custom'', [''yes'']) \<in> set (Headers (cfg ?i))"
    using d by (simp_all add: example_handler_simps)
  note X = T [where k = "''X-Custom''" and v = "[''yes'']"]
  note H = X [THEN conjunct2, THEN conjunct2, THEN conjunct2, THEN conjunct2, THEN mp, THEN mp, THEN mp,
      OF p gn SetRootContext_example]
  have x: "set_user_headers example_headers cors_set_header ''X-Custom'' = Some [''yes'']"
    using X [THEN conjunct2, THEN conjunct2, THEN conjunct1, THEN mp, THEN mp, THEN mp, OF s(2) d] .
  have ret: "\<exists>w'. ServeHTTP example_http example_Parse ?i ?w ?r = Some w'"
    using H [THEN conjunct2, THEN conjunct1, THEN mp, OF disjI2 [OF rd]] .
  have fin: "\<forall>w'. ServeHTTP example_http example_Parse ?i ?w ?r = Some w' \<longrightarrow> Header w' ''X-Custom'' = Some [''yes'']"
    using H [THEN conjunct2, THEN conjunct2, THEN mp, THEN mp, THEN mp, THEN mp, THEN mp, THEN mp,
        OF s(2) d' o g rd] .
  note A = T [where k = "''Access-Control-Allow-Origin''" and v = "[]"]
  have a: "set_user_headers example_headers cors_set_header ''Access-Control-Allow-Origin'' = Some [''http://localhost'']"
    using A [THEN conjunct2, THEN conjunct1, THEN mp, OF s(1)] c by simp
  have keep: "\<forall>w'. ServeHTTP example_http example_Parse ?i ?w ?r = Some w'
        \<longrightarrow> Header w' ''Access-Control-Allow-Origin'' = Some [''http://localhost'']"
    using A [THEN conjunct2, THEN conjunct2, THEN conjunct2, THEN conjunct1, THEN mp, OF s(1)] c
    by (simp add: example_writer_def)
  from ret fin keep have "\<exists>w'. ServeHTTP example_http example_Parse ?i ?w ?r = Some w'
        \<and> Header w' ''Access-Control-Allow-Origin'' = Some [''http://localhost'']
        \<and> Header w' ''X-Custom'' = Some [''yes'']"
    by blast
  with s d x a show ?thesis by (simp only: simp_thms)
qed

text \<open>
  C6. The status on the wire follows the result: 400 for an error of the client class,
  500 for an error of any other class, 200 for no error. It is the code of the status
  line that \<open>sendResponse\<close> has written once it returns, for a request that is not HEAD,
  a source that ends and a connection that does not fail.
\<close>

theorem sendResponse_status_code:
  assumes "guessMimeType res = Inr mime"
    and "res_Reader res = Inr (map (\<lambda>d. (d, None)) ds @- ((dl, Some e) ## rest))"
    and "Method r \<noteq> ''HEAD''"
    and "Hijacker w = Some (Inr b)"
    and "healthy b"
  shows "\<exists>w' b' following. sendResponse L w r req res = Some w'
      \<and> conn w' = Some \<lparr>bufrw = b', closed = True\<rparr>
      \<and> written b' = written b
           @ status_line L (case res_Error res of
                              None \<Rightarrow> 200
                            | Some ce \<Rightarrow> if Code ce = ErrClient then 400 else 500)
           @ following"
proof -
  let ?w = "w\<lparr>Header := assembled_headers (Header w) req res mime\<rparr>"
  have hj: "Hijacker ?w = Some (Inr b)" using assms(4) by simp
  from writeResponse_healthy [OF hj assms(5), of L "response_status res" ds dl e rest]
  obtain b' where b': "writeResponse L (response_status res) ?w (ending_reads ds dl e rest)
           = Some (if e = io_EOF then None else Some e, ?w\<lparr>conn := Some \<lparr>bufrw = b', closed = True\<rparr>\<rparr>)"
    "written b' = written b @ status_line L (response_status res) @ Header_Write L (Header ?w) @ CRLF
            @ chunk_records (ds @ [dl]) @ ''0'' @ CRLF
            @ (if e = io_EOF then [] else trailer_line e) @ CRLF"
    by blast
  have r: "res_Reader res = Inr (ending_reads ds dl e rest)"
    using assms(2) by (simp add: ending_reads_def clean_reads_def)
  have "sendResponse L w r req res = Some (?w\<lparr>conn := Some \<lparr>bufrw = b', closed = True\<rparr>\<rparr>)"
    using assms(3) b'(1) by (simp add: sendResponse_assembled [OF assms(1) r])
  moreover have "response_status res = (case res_Error res of
                              None \<Rightarrow> 200
                            | Some ce \<Rightarrow> if Code ce = ErrClient then 400 else 500)"
    by (simp add: response_status_def)
  ultimately show ?thesis using b'(2) by (auto simp del: append_assoc)
qed

theorem sendResponse_status_code_witness:
  "(\<exists>w' b' following.
      sendResponse example_http (example_writer []) \<lparr>Method = ''GET''\<rparr> (example_request ''json'' True)
        (example_response (example_request ''json'' True) (Some \<lparr>Message = ''bad argument'', Code = ErrClient\<rparr>)
           Out_Value (map (\<lambda>d. (d, None)) [''{}''] @- (([], Some io_EOF) ## eof_forever))) = Some w'
      \<and> conn w' = Some \<lparr>bufrw = b', closed = True\<rparr>
      \<and> written b' = ''HTTP/1.1 400 Bad Request'' @ CRLF @ following)
   \<and> (\<exists>w' b' following.
      sendResponse example_http (example_writer []) \<lparr>Method = ''GET''\<rparr> (example_request ''json'' True)
        (example_response (example_request ''json'' True) (Some \<lparr>Message = ''disk failure'', Code = 0\<rparr>)
           Out_Value (map (\<lambda>d. (d, None)) [''{}''] @- (([], Some io_EOF) ## eof_forever))) = Some w'
      \<and> conn w' = Some \<lparr>bufrw = b', closed = True\<rparr>
      \<and> written b' = ''HTTP/1.1 500 Internal Server Error'' @ CRLF @ following)
   \<and> (\<exists>w' b' following.
      sendResponse example_http (example_writer []) \<lparr>Method = ''GET''\<rparr> (example_request ''json'' True)
        (example_response (example_request ''json'' True) None
           Out_Value (map (\<lambda>d. (d, None)) [''{}''] @- (([], Some io_EOF) ## eof_forever))) = Some w'
      \<and> conn w' = Some \<lparr>bufrw = b', closed = True\<rparr>
      \<and> written b' = ''HTTP/1.1 200 OK'' @ CRLF @ following)"
proof -
  have m: "Method \<lparr>Method = ''GET''\<rparr> \<noteq> ''HEAD''" by simp
  note T = sendResponse_status_code [OF guessMimeType_example res_Reader_example m
      Hijacker_example [of "[]"] healthy_example, where L = example_http and req = "example_request ''json'' True"]
  show ?thesis
    using T [of "Some \<lparr>Message = ''bad argument'', Code = ErrClient\<rparr>" Out_Value "[''{}'']" "[]" io_EOF eof_forever]
      T [of "Some \<lparr>Message = ''disk failure'', Code = 0\<rparr>" Out_Value "[''{}'']" "[]" io_EOF eof_forever]
      T [of None Out_Value "[''{}'']" "[]" io_EOF eof_forever]
    by (simp add: res_Error_example status_line_400 status_line_500 status_line_200 ErrClient_def)
qed

text \<open>
  C7. On a HEAD request \<open>sendResponse\<close> always returns, whatever the body source would
  do, and the connection is as before: not hijacked, nothing written to it. When the
  mime type and the reader are there, the only change is in the headers (among them
  \<open>Transfer-Encoding: chunked\<close>); otherwise the one \<open>http.Error\<close> call of the early
  return is all that happened.
\<close>

theorem sendResponse_HEAD:
  assumes "Method r = ''HEAD''"
  shows "\<exists>w'. sendResponse L w r req res = Some w'
      \<and> conn w' = conn w \<and> Hijacker w' = Hijacker w
      \<and> (case guessMimeType res of
            Inl err \<Rightarrow> w' = call_http_Error w (Error err) 500
          | Inr mime \<Rightarrow>
              (case res_Reader res of
                 Inl err \<Rightarrow> w' = call_http_Error w (Error err) 500
               | Inr out \<Rightarrow> calls w' = calls w
                    \<and> Header w' transferEncodingHeader = Some [''chunked'']))"
proof (cases "guessMimeType res")
  case (Inl err)
  then show ?thesis by (simp add: sendResponse_no_mime call_http_Error_def)
next
  case (Inr mime0)
  show ?thesis
  proof (cases "res_Reader res")
    case (Inl err)
    with Inr show ?thesis by (simp add: sendResponse_no_reader call_http_Error_def)
  next
    case R: (Inr out)
    show ?thesis using assms Inr R
      by (simp add: sendResponse_assembled [OF Inr R] assembled_headers_chunked)
  qed
qed

theorem sendResponse_HEAD_witness:
  "Method \<lparr>Method = ''HEAD''\<rparr> = ''HEAD''
   \<and> (\<exists>w'. sendResponse example_http (example_writer []) \<lparr>Method = ''HEAD''\<rparr> (example_request ''json'' True)
             (example_response (example_request ''json'' True) None Out_Value
                (map (\<lambda>d. (d, None)) [''{}''] @- (([], Some io_EOF) ## eof_forever))) = Some w'
        \<and> conn w' = None
        \<and> calls w' = []
        \<and> Header w' transferEncodingHeader = Some [''chunked''])"
  using sendResponse_HEAD [of "\<lparr>Method = ''HEAD''\<rparr>" example_http "example_writer []" "example_request ''json'' True"
      "example_response (example_request ''json'' True) None Out_Value
         (map (\<lambda>d. (d, None)) [''{}''] @- (([], Some io_EOF) ## eof_forever))"]
  by (auto simp: guessMimeType_example res_Reader_example example_writer_def)

text \<open>
  C8. \<open>guessMimeType\<close> fails with \<open>no encoding option set\<close> when the encoding option
  is not found; when it is found, \<open>json\<close>, \<open>xml\<close> and \<open>text\<close> give their mime types
  and every other string gives the empty string. With an empty mime type (and no
  channel output that streams, which would force \<open>application/json\<close>), \<open>sendResponse\<close>
  leaves the \<open>Content-Type\<close> entry as it found it.
\<close>

theorem guessMimeType_encoding:
  "(Option_String (res_Request res) EncShort = (enc, False, None)
      \<longrightarrow> guessMimeType res = Inl (errors_New ''no encoding option set''))
   \<and> (Option_String (res_Request res) EncShort = (enc, True, None)
      \<longrightarrow> guessMimeType res =
            Inr (if enc = ''json'' then ''application/json''
                 else if enc = ''xml'' then ''application/xml''
                 else if enc = ''text'' then ''text/plain''
                 else []))
   \<and> (guessMimeType res = Inr [] \<longrightarrow> res_Reader res = Inr out
      \<longrightarrow> \<not> ((res_Output res = Out_Chan \<or> res_Output res = Out_RecvChan)
              \<and> fst (Option_Bool req ''stream-channels''))
      \<longrightarrow> (\<forall>w'. sendResponse L w r req res = Some w'
              \<longrightarrow> Header w' contentTypeHeader = Header w contentTypeHeader))"
proof (intro conjI impI allI)
  assume "Option_String (res_Request res) EncShort = (enc, False, None)"
  then show "guessMimeType res = Inl (errors_New ''no encoding option set'')"
    by (simp add: guessMimeType_def)
next
  assume "Option_String (res_Request res) EncShort = (enc, True, None)"
  then show "guessMimeType res =
            Inr (if enc = ''json'' then ''application/json''
                 else if enc = ''xml'' then ''application/xml''
                 else if enc = ''text'' then ''text/plain''
                 else [])"
    by (simp add: guessMimeType_def mimeTypes_index_def mimeTypes_def cmds_JSON_def cmds_XML_def cmds_Text_def)
next
  fix w'
  assume g: "guessMimeType res = Inr []" and rd: "res_Reader res = Inr out"
    and nc: "\<not> ((res_Output res = Out_Chan \<or> res_Output res = Out_RecvChan)
              \<and> fst (Option_Bool req ''stream-channels''))"
    and s: "sendResponse L w r req res = Some w'"
  let ?w = "w\<lparr>Header := assembled_headers (Header w) req res []\<rparr>"
  have a: "Header ?w contentTypeHeader = Header w contentTypeHeader"
    using assembled_headers_no_mime [OF refl nc] by simp
  show "Header w' contentTypeHeader = Header w contentTypeHeader"
  proof (cases "Method r = ''HEAD''")
    case True
    with s a show ?thesis by (auto simp: sendResponse_assembled [OF g rd])
  next
    case False
    with s obtain err where "writeResponse L (response_status res) ?w out = Some (err, w')"
      by (auto simp: sendResponse_assembled [OF g rd] split: option.splits)
    from writeResponse_frame [OF this] a show ?thesis by simp
  qed
qed

theorem guessMimeType_encoding_witness:
  "guessMimeType (example_response (example_request [] False) None Out_Value eof_forever)
     = Inl (errors_New ''no encoding option set'')
   \<and> guessMimeType (example_response (example_request ''xml'' True) None Out_Value eof_forever)
     = Inr ''application/xml''
   \<and> guessMimeType (example_response (example_request ''protobuf'' True) None Out_Value eof_forever) = Inr []
   \<and> (\<exists>w'. sendResponse example_http (example_writer []) \<lparr>Method = ''GET''\<rparr> (example_request ''protobuf'' True)
             (example_response (example_request ''protobuf'' True) None Out_Value eof_forever) = Some w'
        \<and> Header w' contentTypeHeader = None)"
proof -
  let ?rq = "example_request ''protobuf'' True"
  let ?res = "example_response ?rq None Out_Value eof_forever"
  have a: "Option_String (res_Request (example_response (example_request [] False) None Out_Value eof_forever)) EncShort
      = ([], False, None)"
    by (simp add: example_response_def example_request_def)
  have b: "Option_String (res_Request (example_response (example_request ''xml'' True) None Out_Value eof_forever)) EncShort
      = (''xml'', True, None)"
    by (simp add: example_response_def example_request_def)
  have c: "\<not> ((res_Output ?res = Out_Chan \<or> res_Output ?res = Out_RecvChan)
              \<and> fst (Option_Bool ?rq ''stream-channels''))"
    by (simp add: example_response_def)
  have ev: "eof_forever = ending_reads [] [] io_EOF eof_forever"
    by (rule stream.expand) (simp add: eof_forever_def ending_reads_def clean_reads_def)
  have hj: "Hijacker (example_writer [] \<lparr>Header := assembled_headers (Header (example_writer [])) ?rq ?res []\<rparr>)
      = Some (Inr \<lparr>written = [], werr = None, faults = []\<rparr>)"
    by (simp add: example_writer_def)
  obtain b' where "writeResponse example_http (response_status ?res)
        (example_writer [] \<lparr>Header := assembled_headers (Header (example_writer [])) ?rq ?res []\<rparr>)
        (ending_reads [] [] io_EOF eof_forever)
      = Some (None, example_writer [] \<lparr>Header := assembled_headers (Header (example_writer [])) ?rq ?res []\<rparr>
                \<lparr>conn := Some \<lparr>bufrw = b', closed = True\<rparr>\<rparr>)"
    using writeResponse_healthy [OF hj healthy_example, of example_http "response_status ?res" "[]" "[]" io_EOF eof_forever]
    by auto
  then have s: "sendResponse example_http (example_writer []) \<lparr>Method = ''GET''\<rparr> ?rq ?res
      = Some (example_writer [] \<lparr>Header := assembled_headers (Header (example_writer [])) ?rq ?res []\<rparr>
                \<lparr>conn := Some \<lparr>bufrw = b', closed = True\<rparr>\<rparr>)"
    using ev by (simp add: sendResponse_assembled [OF guessMimeType_example_unknown res_Reader_example])
  have "Header (example_writer []) contentTypeHeader = None" by (simp add: example_writer_def)
  with guessMimeType_encoding [of ?res "[]" eof_forever ?rq example_http "example_writer []" "\<lparr>Method = ''GET''\<rparr>"]
    guessMimeType_encoding [of "example_response (example_request [] False) None Out_Value eof_forever" "[]"]
    guessMimeType_encoding [of "example_response (example_request ''xml'' True) None Out_Value eof_forever" "''xml''"]
    a b c s
  show ?thesis
    by (simp add: guessMimeType_example_unknown res_Reader_example)
qed

text \<open>
  C9. The filter compares names byte for byte: a name that is one of the three CORS
  names up to letter case, but not exactly, is not skipped; the loop stores its entry
  under that very key, and on a request that reaches the command the entry is in the
  response writer's headers under that key when \<open>ServeHTTP\<close> has returned, which it
  does on a HEAD request.
\<close>

theorem skipAPIHeader_case_sensitive:
  assumes "k \<notin> set reserved_headers"
    and "map ascii_lower k \<in> set (map (map ascii_lower) reserved_headers)"
    and "distinct (map fst hs)"
    and "(k, v) \<in> set hs"
    and "Headers (cfg i) = hs"
    and "Parse r (root i) = Inr req" and "GetNode (ctx i) = None" and "SetRootContext req = None"
    and "guessMimeType (Call (root i) req) = Inr mime"
    and "res_Reader (Call (root i) req) = Inr out"
  shows "\<not> skipAPIHeader k \<and> set_user_headers hs h k = Some v
     \<and> (Method r = ''HEAD'' \<longrightarrow> (\<exists>w'. ServeHTTP L Parse i w r = Some w'))
     \<and> (\<forall>w'. ServeHTTP L Parse i w r = Some w' \<longrightarrow> Header w' k = Some v)"
proof -
  have n: "\<not> skipAPIHeader k" using assms(1) by (simp add: skipAPIHeader_iff)
  have o: "k \<notin> {contentLengthHeader, streamHeader, channelHeader, contentTypeHeader, transferEncodingHeader}"
    using assms(2) by (rule lower_reserved_not_assembled)
  have d: "distinct (map fst (Headers (cfg i)))" "(k, v) \<in> set (Headers (cfg i))"
    using assms(3,4,5) by simp_all
  have "\<exists>w'. ServeHTTP L Parse i w r = Some w'" if "Method r = ''HEAD''"
    using ServeHTTP_returns [where Parse = Parse and r = r and i = i, OF assms(6-8)] that by blast
  moreover have "Header w' k = Some v" if "ServeHTTP L Parse i w r = Some w'" for w'
    using ServeHTTP_copies [where Parse = Parse and r = r and i = i, OF assms(6-8) assms(9,10) n d o that] .
  ultimately show ?thesis
    using n set_user_headers_copy [OF assms(3,4) n] by blast
qed

theorem skipAPIHeader_case_sensitive_witness:
  "''access-control-allow-origin'' \<notin> set reserved_headers
   \<and> map ascii_lower ''access-control-allow-origin'' \<in> set (map (map ascii_lower) reserved_headers)
   \<and> distinct (map fst [(''access-control-allow-origin'', [''*''])])
   \<and> \<not> skipAPIHeader ''access-control-allow-origin''
   \<and> set_user_headers [(''access-control-allow-origin'', [''*''])] cors_set_header
        ''access-control-allow-origin'' = Some [''*'']
   \<and> (\<exists>w'. ServeHTTP example_http example_Parse
               (example_handler [(''access-control-allow-origin'', [''*''])]
                  (example_response (example_request ''json'' True) None Out_Value eof_forever))
               ((example_writer []) \<lparr>Header := cors_set_header\<rparr>) \<lparr>Method = ''HEAD''\<rparr> = Some w'
        \<and> Header w' ''access-control-allow-origin'' = Some [''*'']
        \<and> Header w' ''Access-Control-Allow-Origin'' = Some [''http://localhost''])"
proof -
  let ?hs = "[(''access-control-allow-origin'', [''*''])]"
  let ?res = "example_response (example_request ''json'' True) None Out_Value eof_forever"
  let ?i = "example_handler ?hs ?res"
  let ?w = "(example_writer []) \<lparr>Header := cors_set_header\<rparr>"
  let ?r = "\<lparr>Method = ''HEAD''\<rparr>"
  have a: "''access-control-allow-origin'' \<notin> set reserved_headers"
    by (simp add: reserved_headers_def)
  have b: "map ascii_lower ''access-control-allow-origin'' \<in> set (map (map ascii_lower) reserved_headers)"
    by (simp add: reserved_headers_def ascii_lower_def)
  have c: "distinct (map fst ?hs)"
    "(''access-control-allow-origin'', [''*'']) \<in> set ?hs"
    by simp_all
  have p: "example_Parse ?r (root ?i) = Inr (example_request ''json'' True)" by (rule example_Parse_simp)
  have g: "guessMimeType (Call (root ?i) (example_request ''json'' True)) = Inr ''application/json''"
    by (simp add: example_handler_simps guessMimeType_example)
  have rd: "res_Reader (Call (root ?i) (example_request ''json'' True)) = Inr eof_forever"
    by (simp add: example_handler_simps res_Reader_example)
  note T = skipAPIHeader_case_sensitive [where Parse = example_Parse and r = ?r and i = ?i,
      OF a b c example_handler_simps(1) p example_handler_simps(2) SetRootContext_example g rd,
      where L = example_http and w = ?w and h = cors_set_header]
  then obtain w' where w': "ServeHTTP example_http example_Parse ?i ?w ?r = Some w'"
    and k: "Header w' ''access-control-allow-origin'' = Some [''*'']"
    by auto
  have s: "skipAPIHeader ''Access-Control-Allow-Origin''" by (simp add: skipAPIHeader_def)
  from ServeHTTP_reserved [OF w' s] have "Header w' ''Access-Control-Allow-Origin'' = Some [''http://localhost'']"
    by (simp add: cors_set_header_def)
  with w' k have "\<exists>w'. ServeHTTP example_http example_Parse ?i ?w ?r = Some w'
        \<and> Header w' ''access-control-allow-origin'' = Some [''*'']
        \<and> Header w' ''Access-Control-Allow-Origin'' = Some [''http://localhost'']"
    by blast
  with T a b c(1) show ?thesis by (simp only: simp_thms)
qed

text \<open>
  C10. \<open>NewHandler\<close> never dereferences nil: for every context, root command and
  configuration pointer (nil or not, with or without CORS options) it returns a handler.
  The options it hands to the CORS package, which are also those of the stored
  configuration, have the methods GET, POST, PUT where \<open>AllowedMethods\<close> was nil and the
  four localhost origins where \<open>AllowedOrigins\<close> was nil or out of reach, and the given
  lists otherwise.
\<close>

theorem NewHandler_defaults:
  "\<exists>h. NewHandler c rt cfg0 = Inr h
     \<and> CORSOpts (cfg (internal h)) = Some (cors_options (corsHandler h))
     \<and> wrapped (corsHandler h) = internal h
     \<and> AllowedMethods (cors_options (corsHandler h))
         = Some (case Option.bind (Option.bind cfg0 CORSOpts) AllowedMethods of
                   None \<Rightarrow> [''GET'', ''POST'', ''PUT'']
                 | Some ms \<Rightarrow> ms)
     \<and> AllowedOrigins (cors_options (corsHandler h))
         = Some (case Option.bind (Option.bind cfg0 CORSOpts) AllowedOrigins of
                   None \<Rightarrow> [''http://127.0.0.1'', ''https://127.0.0.1'', ''http://localhost'', ''https://localhost'']
                 | Some os \<Rightarrow> os)"
proof (cases cfg0)
  case None
  then show ?thesis
    by (simp add: NewHandler_def deref_def and_then_def localhostOrigins_def Let_def)
next
  case (Some s)
  show ?thesis
  proof (cases "CORSOpts s")
    case None
    with Some show ?thesis
      by (simp add: NewHandler_def deref_def and_then_def localhostOrigins_def Let_def)
  next
    case (Some opts)
    show ?thesis
    proof (cases "AllowedMethods opts")
      case None
      with \<open>cfg0 = Some s\<close> \<open>CORSOpts s = Some opts\<close> show ?thesis
        by (cases "AllowedOrigins opts")
           (simp_all add: NewHandler_def deref_def and_then_def localhostOrigins_def Let_def)
    next
      case (Some ms)
      with \<open>cfg0 = Some s\<close> \<open>CORSOpts s = Some opts\<close> show ?thesis
        by (cases "AllowedOrigins opts")
           (simp_all add: NewHandler_def deref_def and_then_def localhostOrigins_def Let_def)
    qed
  qed
qed

theorem NewHandler_defaults_witness:
  "NewHandler \<lparr>GetNode = None\<rparr> \<lparr>Call = (\<lambda>rq. example_response rq None Out_Value eof_forever)\<rparr> None
     = Inr \<lparr>internal = \<lparr>ctx = \<lparr>GetNode = None\<rparr>,
                         root = \<lparr>Call = (\<lambda>rq. example_response rq None Out_Value eof_forever)\<rparr>,
                         cfg = \<lparr>Headers = [],
                                CORSOpts = Some \<lparr>AllowedOrigins = Some localhostOrigins,
                                                 AllowedMethods = Some [''GET'', ''POST'', ''PUT'']\<rparr>\<rparr>\<rparr>,
            corsHandler = \<lparr>cors_options = \<lparr>AllowedOrigins = Some localhostOrigins,
                                           AllowedMethods = Some [''GET'', ''POST'', ''PUT'']\<rparr>,
                           wrapped = \<lparr>ctx = \<lparr>GetNode = None\<rparr>,
                                      root = \<lparr>Call = (\<lambda>rq. example_response rq None Out_Value eof_forever)\<rparr>,
                                      cfg = \<lparr>Headers = [],
                                             CORSOpts = Some \<lparr>AllowedOrigins = Some localhostOrigins,
                                                              AllowedMethods = Some [''GET'', ''POST'', ''PUT'']\<rparr>\<rparr>\<rparr>\<rparr>\<rparr>"
  using NewHandler_defaults [of "\<lparr>GetNode = None\<rparr>"
      "\<lparr>Call = (\<lambda>rq. example_response rq None Out_Value eof_forever)\<rparr>" None]
  by (simp add: NewHandler_def deref_def and_then_def Let_def)

end
